theory Spec2Isabelle
  imports Complex_Main "HOL-Library.Multiset"
begin

section \<open>Dataset playback of dexmimicgen (scripts/playback\_datasets.py)\<close>

text \<open>
  The script replays recorded episodes on a robosuite environment. The environment, the
  HDF5 reader, the video writer and the JSON parser are collaborators of the script: the
  embedding records every call the script makes on them, in order, in a trace, and takes
  their answers from functions of the calls made so far. Their calls are taken to return:
  what can fail in the model is what the script itself raises, and what Python and numpy
  raise on the script's own expressions (an index or key that is not there, a division by
  zero, arrays whose shapes do not fit, \<^verbatim>\<open>int\<close> of a string that is no number,
  \<^verbatim>\<open>json.loads(None)\<close>). Floating-point numbers are read as reals. A string is the
  list of its code points, which are below 256. Wall-clock pacing (\<^verbatim>\<open>time.time\<close>,
  \<^verbatim>\<open>time.sleep\<close>) is left out.
\<close>

subsection \<open>Values\<close>

type_synonym flat_state = "real list"
type_synonym action = "real list"

text \<open>A parsed \<^verbatim>\<open>ep_meta\<close> dictionary: keys with the text of their values.\<close>
type_synonym ep_meta = "(string \<times> string) list"

text \<open>An image is its rows, top to bottom; a row is its pixels, left to right.\<close>
type_synonym pixel = "nat \<times> nat \<times> nat"
type_synonym image = "pixel list list"

type_synonym observation = "(string \<times> real list) list"

text \<open>The \<^verbatim>\<open>assert\<close> statements of the script, by what they check.\<close>
datatype assertion =
    One_output_mode
  | Same_length
  | Image_names_given
  | One_camera_on_screen
  | Obs_to_video
  | Obs_without_actions

datatype error =
    AssertionError assertion
  | TypeError
  | ValueError
  | IndexError
  | KeyError
  | NameError
  | ZeroDivisionError
  | AttributeError

text \<open>What the script prints, one constructor for each \<^verbatim>\<open>print\<close> of the source.\<close>
datatype msg =
    Instruction string
  | Spawning_environment
  | Running_episode
  | Playback_diverged real nat
  | Playback_did_not_success
  | Using_filter_key string
  | Initializing_environment string
  | Playing_back_episode string
  | Saved_video_to string

text \<open>Every call on a collaborator, in the order the script makes it.\<close>
datatype event =
    Set_attrs_from_ep_meta ep_meta
  | Set_ep_meta ep_meta
  | Env_reset
  | Edit_model_xml string
  | Reset_from_xml_string string
  | Sim_reset
  | Sim_set_state_from_flattened flat_state
  | Sim_forward
  | Update_sites
  | Update_state
  | Env_step action
  | Check_success
  | Sim_get_state
  | Initialize_renderer
  | Viewer_update
  | Viewer_close
  | Sim_render string
  | Model_get_xml
  | Robosuite_make string bool
  | Env_close
  | Print msg
  | Get_writer string
  | Append_data image
  | Writer_close
  | File_close

text \<open>
  Library functions and constants the script imports: \<^verbatim>\<open>json.loads\<close> on the metadata
  blob (a JSON document written by the recorder), the minor version number of robosuite,
  \<^verbatim>\<open>robosuite.utils.mjcf_utils.postprocess_model_xml\<close>, \<^verbatim>\<open>np.argsort\<close> on a list of
  integers, and the permutation \<^verbatim>\<open>random.shuffle\<close> draws.
\<close>
record library =
  json_loads :: "string \<Rightarrow> ep_meta"
  robosuite_version_id :: int
  postprocess_model_xml :: "string \<Rightarrow> string"
  np_argsort :: "int list \<Rightarrow> nat list"
  random_shuffle :: "string list \<Rightarrow> string list"

text \<open>
  The environment object: which optional methods it has (\<^verbatim>\<open>hasattr\<close>), and what its
  queries answer after a given history of calls.
\<close>
record simulator =
  has_set_attrs_from_ep_meta :: bool
  has_set_ep_meta :: bool
  has_update_sites :: bool
  has_update_state :: bool
  edit_model_xml :: "string \<Rightarrow> string"
  check_success :: "event list \<Rightarrow> bool"
  sim_get_state :: "event list \<Rightarrow> flat_state"
  sim_render :: "event list \<Rightarrow> string \<Rightarrow> image"
  model_get_xml :: "event list \<Rightarrow> string"

text \<open>The mutable part of a run: whether \<^verbatim>\<open>env.viewer\<close> is set, and the calls so far.\<close>
record run_state =
  viewer :: bool
  trace :: "event list"

definition emit :: "event \<Rightarrow> run_state \<Rightarrow> run_state" where
  "emit e st = st\<lparr>trace := trace st @ [e]\<rparr>"

subsection \<open>\<^verbatim>\<open>reset_to\<close>\<close>

text \<open>
  The \<^verbatim>\<open>state\<close> dictionary of \<^verbatim>\<open>reset_to\<close>: each key is there or not. A key that is
  there with the value \<^verbatim>\<open>None\<close> only occurs for \<^verbatim>\<open>ep_meta\<close>, where the source treats
  it as the missing key.
\<close>
record request =
  req_model :: "string option"
  req_ep_meta :: "string option"
  req_states :: "flat_state option"

definition reset_to ::
  "library \<Rightarrow> simulator \<Rightarrow> run_state \<Rightarrow> request \<Rightarrow> observation option \<times> run_state" where
  "reset_to L E st0 req =
    (let st1 =
       (case req_model req of
          None \<Rightarrow> st0
        | Some mdl \<Rightarrow>
            (let ep_meta = (case req_ep_meta req of Some m \<Rightarrow> json_loads L m | None \<Rightarrow> []);
                 sa = (if has_set_attrs_from_ep_meta E then emit (Set_attrs_from_ep_meta ep_meta) st0
                       else if has_set_ep_meta E then emit (Set_ep_meta ep_meta) st0
                       else st0);
                 sb = emit Env_reset sa;
                 (xml, sc) = (if robosuite_version_id L \<le> 3 then (postprocess_model_xml L mdl, sb)
                              else (edit_model_xml E mdl, emit (Edit_model_xml mdl) sb));
                 sd = emit (Reset_from_xml_string xml) sc
             in emit Sim_reset sd));
         st2 =
       (case req_states req of
          None \<Rightarrow> st1
        | Some v \<Rightarrow> emit Sim_forward (emit (Sim_set_state_from_flattened v) st1));
         st3 = (if has_update_sites E then emit Update_sites st2 else st2);
         st4 = (if has_update_state E then emit Update_state st3 else st3)
     in (None, st4))"

text \<open>The calls of one \<^verbatim>\<open>reset_to\<close>, step by step as the source orders them.\<close>

definition metadata_calls :: "library \<Rightarrow> simulator \<Rightarrow> request \<Rightarrow> event list" where
  "metadata_calls L E req =
    (let ep_meta = (case req_ep_meta req of Some m \<Rightarrow> json_loads L m | None \<Rightarrow> [])
     in if has_set_attrs_from_ep_meta E then [Set_attrs_from_ep_meta ep_meta]
        else if has_set_ep_meta E then [Set_ep_meta ep_meta]
        else [])"

definition load_calls :: "library \<Rightarrow> simulator \<Rightarrow> string \<Rightarrow> event list" where
  "load_calls L E mdl =
    (if robosuite_version_id L \<le> 3 then [Reset_from_xml_string (postprocess_model_xml L mdl)]
     else [Edit_model_xml mdl, Reset_from_xml_string (edit_model_xml E mdl)])"

definition state_calls :: "request \<Rightarrow> event list" where
  "state_calls req =
    (case req_states req of None \<Rightarrow> [] | Some v \<Rightarrow> [Sim_set_state_from_flattened v, Sim_forward])"

definition refresh_calls :: "simulator \<Rightarrow> event list" where
  "refresh_calls E =
    (if has_update_sites E then [Update_sites] else []) @
    (if has_update_state E then [Update_state] else [])"


subsection \<open>numpy on vectors and images\<close>

text \<open>
  A binary ufunc on two one-dimensional arrays broadcasts: equal lengths go element by
  element, an array of length one is stretched, anything else raises \<^verbatim>\<open>ValueError\<close>
  (\<open>None\<close> here).
\<close>
definition np_broadcast :: "(real \<Rightarrow> real \<Rightarrow> 'a) \<Rightarrow> real list \<Rightarrow> real list \<Rightarrow> 'a list option" where
  "np_broadcast f xs ys =
    (if length xs = length ys then Some (map2 f xs ys)
     else if length xs = 1 then Some (map (f (hd xs)) ys)
     else if length ys = 1 then Some (map (\<lambda>x. f x (hd ys)) xs)
     else None)"

definition np_equal :: "real list \<Rightarrow> real list \<Rightarrow> bool list option" where
  "np_equal xs ys = np_broadcast (\<lambda>x y. x = y) xs ys"

definition np_subtract :: "real list \<Rightarrow> real list \<Rightarrow> real list option" where
  "np_subtract xs ys = np_broadcast (\<lambda>x y. x - y) xs ys"

definition np_all :: "bool list \<Rightarrow> bool" where
  "np_all bs = list_all (\<lambda>b. b) bs"

text \<open>\<^verbatim>\<open>np.linalg.norm\<close> of a one-dimensional array: the 2-norm.\<close>
definition linalg_norm :: "real list \<Rightarrow> real" where
  "linalg_norm xs = sqrt (sum_list (map (\<lambda>x. \<bar>x\<bar> ^ 2) xs))"

text \<open>
  \<^verbatim>\<open>np.concatenate(ims, axis=1)\<close> on arrays of rows of pixels: it needs at least one
  array, and every dimension but the second must agree, which for images of one pixel
  type is the height. \<open>None\<close> is the \<^verbatim>\<open>ValueError\<close>.
\<close>
definition np_concatenate_axis1 :: "'a list list list \<Rightarrow> 'a list list option" where
  "np_concatenate_axis1 ims =
    (case ims of
       [] \<Rightarrow> None
     | im # rest \<Rightarrow>
         if list_all (\<lambda>x. length x = length im) rest
         then Some (map (\<lambda>r. concat (map (\<lambda>x. x ! r) ims)) [0..<length im])
         else None)"

subsection \<open>\<^verbatim>\<open>playback_trajectory_with_env\<close>\<close>

type_synonym outcome = "(error \<times> run_state) + run_state"

text \<open>
  The keyword arguments of \<^verbatim>\<open>playback_trajectory_with_env\<close>; of the video writer only
  whether one is given (\<^verbatim>\<open>video_writer is not None\<close>).
\<close>
record playback =
  render :: bool
  video_writer :: bool
  video_skip :: int
  camera_names :: "string list"
  first :: bool
  verbose :: bool

text \<open>
  Lines 123 to 134: read the simulator's state and compare it with the recorded next
  state. The caller has checked \<open>i < traj_len - 1\<close>, so \<open>states ! (i + 1)\<close> is in range.
\<close>
definition check_playback ::
  "simulator \<Rightarrow> playback \<Rightarrow> flat_state list \<Rightarrow> nat \<Rightarrow> nat \<Rightarrow> run_state \<Rightarrow> outcome" where
  "check_playback E P states traj_len i st =
    (let state_playback = sim_get_state E (trace st);
         st1 = emit Sim_get_state st
     in case np_equal (states ! (i + 1)) state_playback of
          None \<Rightarrow> Inl (ValueError, st1)
        | Some eq \<Rightarrow>
            if \<not> np_all eq then
              (case np_subtract (states ! (i + 1)) state_playback of
                 None \<Rightarrow> Inl (ValueError, st1)
               | Some d \<Rightarrow>
                   (let err = linalg_norm d
                    in if verbose P \<or> int i = int traj_len - 2
                       then Inr (emit (Print (Playback_diverged err i)) st1)
                       else Inr st1))
            else Inr st1)"

text \<open>Lines 117 to 136: one step of the episode, by action or by state.\<close>
definition advance ::
  "library \<Rightarrow> simulator \<Rightarrow> playback \<Rightarrow> flat_state list \<Rightarrow> action list option \<Rightarrow> nat \<Rightarrow> nat \<Rightarrow>
   bool \<times> run_state \<Rightarrow> (error \<times> run_state) + (bool \<times> run_state)" where
  "advance L E P states actions traj_len i sst =
    (case sst of (success, st) \<Rightarrow>
      (case actions of
         Some acts \<Rightarrow>
           (let st1 = emit (Env_step (acts ! i)) st;
                success' = (if check_success E (trace st1) then True else success);
                st2 = emit Check_success st1
            in if int i < int traj_len - 1
               then (case check_playback E P states traj_len i st2 of
                       Inl x \<Rightarrow> Inl x
                     | Inr st3 \<Rightarrow> Inr (success', st3))
               else Inr (success', st2))
       | None \<Rightarrow>
           Inr (success,
                snd (reset_to L E st
                      \<lparr>req_model = None, req_ep_meta = None, req_states = Some (states ! i)\<rparr>))))"

text \<open>
  Lines 139 to 144: the on-screen viewer. \<^verbatim>\<open>initialize_renderer\<close> is taken to set
  \<^verbatim>\<open>env.viewer\<close>; the pacing sleep is left out.
\<close>
definition on_screen :: "playback \<Rightarrow> run_state \<Rightarrow> run_state" where
  "on_screen P st =
    (if render P
     then emit Viewer_update
            (if \<not> viewer st then (emit Initialize_renderer st)\<lparr>viewer := True\<rparr> else st)
     else st)"

text \<open>
  Lines 155 to 160: for each camera name, in order, the image the simulator renders at
  height 512 and width 512, upside down (\<^verbatim>\<open>[::-1]\<close>).
\<close>
fun render_cameras :: "simulator \<Rightarrow> string list \<Rightarrow> run_state \<Rightarrow> image list \<times> run_state" where
  "render_cameras E [] st = ([], st)"
| "render_cameras E (cam_name # cs) st =
    (let im = rev (sim_render E (trace st) cam_name);
         (ims, st') = render_cameras E cs (emit (Sim_render cam_name) st)
     in (im # ims, st'))"

text \<open>Lines 153 to 166: the video frame of this step, and the frame counter.\<close>
definition video_render ::
  "simulator \<Rightarrow> playback \<Rightarrow> nat \<times> run_state \<Rightarrow> (error \<times> run_state) + (nat \<times> run_state)" where
  "video_render E P vst =
    (case vst of (video_count, st) \<Rightarrow>
      if video_writer P then
        (if video_skip P = 0 then Inl (ZeroDivisionError, st)
         else if int video_count mod video_skip P = 0 then
           (case render_cameras E (camera_names P) st of (video_img, st1) \<Rightarrow>
             (case np_concatenate_axis1 video_img of
                None \<Rightarrow> Inl (ValueError, st1)
              | Some frame \<Rightarrow> Inr (video_count + 1, emit (Append_data frame) st1)))
         else Inr (video_count + 1, st))
      else Inr (video_count, st))"

text \<open>
  The loop \<^verbatim>\<open>for i in range(traj_len)\<close> over the list of its indices, carrying
  \<open>success\<close>, \<open>video_count\<close> and the run state; \<^verbatim>\<open>break\<close> after the first pass when
  \<open>first\<close> is set.
\<close>
fun replay_loop ::
  "library \<Rightarrow> simulator \<Rightarrow> playback \<Rightarrow> flat_state list \<Rightarrow> action list option \<Rightarrow> nat \<Rightarrow>
   nat list \<Rightarrow> bool \<times> nat \<times> run_state \<Rightarrow> (error \<times> run_state) + (bool \<times> nat \<times> run_state)" where
  "replay_loop L E P states actions traj_len [] s = Inr s"
| "replay_loop L E P states actions traj_len (i # is) (success, video_count, st) =
    (case advance L E P states actions traj_len i (success, st) of
       Inl x \<Rightarrow> Inl x
     | Inr (success', st1) \<Rightarrow>
         (case video_render E P (video_count, on_screen P st1) of
            Inl x \<Rightarrow> Inl x
          | Inr (video_count', st2) \<Rightarrow>
              if first P then Inr (success', video_count', st2)
              else replay_loop L E P states actions traj_len is (success', video_count', st2)))"

text \<open>
  Lines 97 to 102: what a verbose run prints before the episode. \<^verbatim>\<open>playback_dataset\<close>
  always stores the \<^verbatim>\<open>ep_meta\<close> key, with \<^verbatim>\<open>None\<close> for an episode without metadata, on
  which \<^verbatim>\<open>json.loads\<close> raises.
\<close>
definition announce :: "library \<Rightarrow> playback \<Rightarrow> request \<Rightarrow> run_state \<Rightarrow> outcome" where
  "announce L P initial_state st0 =
    (if verbose P then
       (case req_ep_meta initial_state of
          None \<Rightarrow> Inl (TypeError, st0)
        | Some m \<Rightarrow>
            (let ep_meta = json_loads L m;
                 st' = (case map_of ep_meta ''lang'' of
                          None \<Rightarrow> st0
                        | Some lang \<Rightarrow> emit (Print (Instruction lang)) st0)
             in Inr (emit (Print Spawning_environment) st')))
     else Inr st0)"

text \<open>Lines 171 to 176: closing the viewer, and the warning of a replay without success.\<close>
definition finish :: "playback \<Rightarrow> bool \<Rightarrow> bool \<Rightarrow> run_state \<Rightarrow> outcome" where
  "finish P action_playback success st4 =
    (if render P \<and> \<not> viewer st4 then Inl (AttributeError, st4)
     else
       (let st5 = (if render P then (emit Viewer_close st4)\<lparr>viewer := False\<rparr> else st4)
        in if action_playback \<and> \<not> success
           then Inr (emit (Print Playback_did_not_success) st5)
           else Inr st5))"

definition playback_trajectory_with_env ::
  "library \<Rightarrow> simulator \<Rightarrow> request \<Rightarrow> flat_state list \<Rightarrow> action list option \<Rightarrow> playback \<Rightarrow>
   run_state \<Rightarrow> outcome" where
  "playback_trajectory_with_env L E initial_state states actions P st0 =
    (let write_video = video_writer P
     in if render P \<and> write_video then Inl (AssertionError One_output_mode, st0)
        else
          (case announce L P initial_state st0 of
             Inl x \<Rightarrow> Inl x
           | Inr st1 \<Rightarrow>
               (let st2 = snd (reset_to L E st1 initial_state);
                    traj_len = length states;
                    action_playback = (actions \<noteq> None)
                in if (case actions of Some acts \<Rightarrow> length states \<noteq> length acts | None \<Rightarrow> False)
                   then Inl (AssertionError Same_length, st2)
                   else
                     (let st3 = (if \<not> render P then emit (Print Running_episode) st2 else st2)
                      in case replay_loop L E P states actions traj_len [0..<traj_len]
                                (False, 0, st3) of
                           Inl x \<Rightarrow> Inl x
                         | Inr (success, video_count, st4) \<Rightarrow>
                             finish P action_playback success st4))))"

subsection \<open>\<^verbatim>\<open>playback_trajectory_with_obs\<close>\<close>

text \<open>
  A trajectory group of the file, as far as the script reads it: the state and action
  arrays, the \<^verbatim>\<open>model_file\<close> and \<^verbatim>\<open>ep_meta\<close> attributes, and the image arrays under
  \<^verbatim>\<open>obs/\<close> by name.
\<close>
record episode =
  ep_states :: "flat_state list"
  ep_actions :: "action list option"
  ep_model_file :: string
  ep_ep_meta :: "string option"
  ep_obs :: "(string \<times> image list) list"

text \<open>Line 207: the images of step \<open>i\<close>, one for each name, read in order.\<close>
fun obs_images :: "(string \<times> image list) list \<Rightarrow> string list \<Rightarrow> nat \<Rightarrow> error + image list" where
  "obs_images obs [] i = Inr []"
| "obs_images obs (k # ks) i =
    (case map_of obs (k @ ''_image'') of
       None \<Rightarrow> Inl KeyError
     | Some frames \<Rightarrow>
         if i < length frames
         then (case obs_images obs ks i of
                 Inl e \<Rightarrow> Inl e
               | Inr ims \<Rightarrow> Inr (frames ! i # ims))
         else Inl IndexError)"

fun obs_loop ::
  "(string \<times> image list) list \<Rightarrow> int \<Rightarrow> string list \<Rightarrow> bool \<Rightarrow> nat list \<Rightarrow> nat \<times> run_state \<Rightarrow>
   (error \<times> run_state) + (nat \<times> run_state)" where
  "obs_loop obs vskip image_names only_first [] s = Inr s"
| "obs_loop obs vskip image_names only_first (i # is) (video_count, st) =
    (if vskip = 0 then Inl (ZeroDivisionError, st)
     else
       (case (if int video_count mod vskip = 0
              then (case obs_images obs image_names i of
                      Inl e \<Rightarrow> Inl (e, st)
                    | Inr im \<Rightarrow>
                        (case np_concatenate_axis1 im of
                           None \<Rightarrow> Inl (ValueError, st)
                         | Some frame \<Rightarrow> Inr (emit (Append_data frame) st)))
              else Inr st) of
          Inl x \<Rightarrow> Inl x
        | Inr st1 \<Rightarrow>
            if only_first then Inr (video_count + 1, st1)
            else obs_loop obs vskip image_names only_first is (video_count + 1, st1)))"

definition playback_trajectory_with_obs ::
  "episode \<Rightarrow> int \<Rightarrow> string list option \<Rightarrow> bool \<Rightarrow> run_state \<Rightarrow> outcome" where
  "playback_trajectory_with_obs traj_grp vskip image_names only_first st =
    (case image_names of
       None \<Rightarrow> Inl (AssertionError Image_names_given, st)
     | Some names \<Rightarrow>
         (case names of
            [] \<Rightarrow> Inl (IndexError, st)
          | name0 # _ \<Rightarrow>
              (case map_of (ep_obs traj_grp) (name0 @ ''_image'') of
                 None \<Rightarrow> Inl (KeyError, st)
               | Some frames \<Rightarrow>
                   (let traj_len = length frames
                    in case obs_loop (ep_obs traj_grp) vskip names only_first [0..<traj_len] (0, st) of
                         Inl x \<Rightarrow> Inl x
                       | Inr (video_count, st1) \<Rightarrow> Inr st1))))"

subsection \<open>\<^verbatim>\<open>playback_dataset\<close>\<close>

text \<open>
  The dataset file: the \<^verbatim>\<open>data\<close> group (its episodes by key, in the order \<^verbatim>\<open>keys()\<close>
  lists them) with its \<^verbatim>\<open>env_args\<close> attribute, and the \<^verbatim>\<open>mask\<close> group (the ids under
  each filter key, decoded).
\<close>
record hdf5 =
  h5_data :: "(string \<times> episode) list option"
  h5_env_args :: "string option"
  h5_mask :: "(string \<times> string list) list"

text \<open>The parsed command line; \<^verbatim>\<open>store_true\<close> flags are booleans.\<close>
record args =
  args_dataset :: string
  args_filter_key :: "string option"
  args_n :: "int option"
  args_use_obs :: bool
  args_use_actions :: bool
  args_render :: bool
  args_video_path :: "string option"
  args_video_skip :: int
  args_render_image_names :: "string list option"
  args_first :: bool
  args_extend_states :: bool
  args_verbose :: bool
  args_use_current_model :: bool

text \<open>\<^verbatim>\<open>s.split(sep)[0]\<close>: the part of \<open>s\<close> before the first \<open>sep\<close>, all of \<open>s\<close> without one.\<close>
fun split_first :: "string \<Rightarrow> string \<Rightarrow> string" where
  "split_first sep [] = []"
| "split_first sep (c # cs) =
    (if take (length sep) (c # cs) = sep then [] else c # split_first sep cs)"

text \<open>
  Python's \<^verbatim>\<open>int\<close> on a string, as CPython 3.11 has it with its default settings: white
  space around (tab to carriage return, space, and the code points 0x85 and 0xA0), one
  optional sign, decimal digits with single underscores between them, and at most 4300
  digits; \<open>None\<close> is the \<^verbatim>\<open>ValueError\<close>. The code points 0x1C to 0x1F are no white space
  for \<^verbatim>\<open>int\<close>, and no code point from 0x80 to 0xFF is a decimal digit.
\<close>
definition is_digit :: "char \<Rightarrow> bool" where
  "is_digit c = (c \<in> set ''0123456789'')"

definition digit_val :: "char \<Rightarrow> nat" where
  "digit_val c = of_char c - 48"

definition is_space :: "char \<Rightarrow> bool" where
  "is_space c =
    (c \<in> set [CHR '' '', CHR 0x09, CHR 0x0A, CHR 0x0B, CHR 0x0C, CHR 0x0D,
              CHR 0x85, CHR 0xA0])"

fun parse_digits :: "bool \<Rightarrow> nat \<Rightarrow> string \<Rightarrow> nat option" where
  "parse_digits after_digit acc [] = (if after_digit then Some acc else None)"
| "parse_digits after_digit acc (c # cs) =
    (if is_digit c then parse_digits True (10 * acc + digit_val c) cs
     else if c = CHR ''_'' \<and> after_digit then parse_digits False acc cs
     else None)"

definition int_max_str_digits :: nat where
  "int_max_str_digits = 4300"

definition parse_number :: "string \<Rightarrow> nat option" where
  "parse_number cs =
    (if int_max_str_digits < length (filter is_digit cs) then None
     else parse_digits False 0 cs)"

definition py_int :: "string \<Rightarrow> int option" where
  "py_int s =
    (case dropWhile is_space (rev (dropWhile is_space (rev s))) of
       [] \<Rightarrow> None
     | c # cs \<Rightarrow>
         if c = CHR ''-'' then map_option (\<lambda>n. - int n) (parse_number cs)
         else if c = CHR ''+'' then map_option int (parse_number cs)
         else map_option int (parse_number (c # cs)))"

text \<open>\<^verbatim>\<open>xs[:n]\<close>: a negative \<open>n\<close> counts from the end.\<close>
definition py_take :: "int \<Rightarrow> 'a list \<Rightarrow> 'a list" where
  "py_take n xs = (if 0 \<le> n then take (nat n) xs else take (nat (int (length xs) + n)) xs)"

definition get_env_metadata_from_dataset :: "library \<Rightarrow> hdf5 \<Rightarrow> error + ep_meta" where
  "get_env_metadata_from_dataset L f =
    (case h5_data f of
       None \<Rightarrow> Inl KeyError
     | Some d \<Rightarrow>
         (case h5_env_args f of
            None \<Rightarrow> Inl KeyError
          | Some env_args \<Rightarrow> Inr (json_loads L env_args)))"

text \<open>
  Lines 381 to 391: the episode ids, from the mask under the filter key or from the keys
  of \<^verbatim>\<open>data\<close>, reordered by \<^verbatim>\<open>np.argsort\<close> of \<^verbatim>\<open>int(elem[5:])\<close>. With no filter key and
  no \<^verbatim>\<open>data\<close> group, \<^verbatim>\<open>demos\<close> is unbound at line 390.
\<close>
definition stored_demos :: "hdf5 \<Rightarrow> string option \<Rightarrow> error + string list" where
  "stored_demos f filter_key =
    (case filter_key of
       Some k \<Rightarrow> (case map_of (h5_mask f) k of None \<Rightarrow> Inl KeyError | Some ids \<Rightarrow> Inr ids)
     | None \<Rightarrow> (case h5_data f of None \<Rightarrow> Inl NameError | Some d \<Rightarrow> Inr (map fst d)))"

definition list_demos :: "library \<Rightarrow> hdf5 \<Rightarrow> string option \<Rightarrow> error + string list" where
  "list_demos L f filter_key =
    (case stored_demos f filter_key of
       Inl e \<Rightarrow> Inl e
     | Inr demos \<Rightarrow>
         (case those (map (\<lambda>elem. py_int (drop 5 elem)) demos) of
            None \<Rightarrow> Inl ValueError
          | Some keys \<Rightarrow>
              (let inds = np_argsort L keys
               in Inr (map (\<lambda>i. demos ! i) inds))))"

text \<open>Lines 381 to 396: the episodes to replay, cut to \<^verbatim>\<open>args.n\<close> after a shuffle.\<close>
definition replay_demos :: "library \<Rightarrow> hdf5 \<Rightarrow> string option \<Rightarrow> int option \<Rightarrow> error + string list" where
  "replay_demos L f filter_key n =
    (case list_demos L f filter_key of
       Inl e \<Rightarrow> Inl e
     | Inr demos \<Rightarrow>
         (case n of
            Some k \<Rightarrow> Inr (py_take k (random_shuffle L demos))
          | None \<Rightarrow> Inr demos))"

text \<open>The name \<^verbatim>\<open>"robot0_agentview_center"\<close> of line 334 is a string, so what later
  iterates over it and takes its length sees its characters.\<close>
definition default_render_image_names :: "string list" where
  "default_render_image_names = map (\<lambda>c. [c]) ''robot0_agentview_center''"

text \<open>Lines 404 to 444: one pass of the loop over the episodes.\<close>
definition playback_episode ::
  "library \<Rightarrow> simulator \<Rightarrow> hdf5 \<Rightarrow> args \<Rightarrow> bool \<Rightarrow> string list \<Rightarrow> string \<Rightarrow> run_state \<Rightarrow> outcome" where
  "playback_episode L E f a write_video names ep st0 =
    (let st = emit (Print (Playing_back_episode ep)) st0
     in case (case h5_data f of None \<Rightarrow> None | Some d \<Rightarrow> map_of d ep) of
          None \<Rightarrow> Inl (KeyError, st)
        | Some grp \<Rightarrow>
            if args_use_obs a
            then playback_trajectory_with_obs grp (args_video_skip a) (Some names) (args_first a) st
            else
              (let states = ep_states grp
               in if states = [] then Inl (IndexError, st)
                  else
                    (let (mdl, st1) =
                           (if args_use_current_model a
                            then (model_get_xml E (trace st), emit Model_get_xml st)
                            else (ep_model_file grp, st));
                         initial_state =
                           \<lparr>req_model = Some mdl, req_ep_meta = ep_ep_meta grp,
                            req_states = Some (hd states)\<rparr>;
                         states' = (if args_extend_states a
                                    then states @ replicate 50 (last states)
                                    else states)
                     in case (if args_use_actions a
                              then (case ep_actions grp of
                                      None \<Rightarrow> Inl KeyError
                                    | Some acts \<Rightarrow> Inr (Some acts))
                              else Inr None) of
                          Inl e \<Rightarrow> Inl (e, st1)
                        | Inr actions \<Rightarrow>
                            playback_trajectory_with_env L E initial_state states' actions
                              \<lparr>render = args_render a, video_writer = write_video,
                               video_skip = args_video_skip a, camera_names = names,
                               first = args_first a, verbose = args_verbose a\<rparr> st1)))"

fun episodes_loop ::
  "library \<Rightarrow> simulator \<Rightarrow> hdf5 \<Rightarrow> args \<Rightarrow> bool \<Rightarrow> string list \<Rightarrow> string list \<Rightarrow> run_state \<Rightarrow> outcome" where
  "episodes_loop L E f a write_video names [] st = Inr st"
| "episodes_loop L E f a write_video names (ep # eps) st =
    (case playback_episode L E f a write_video names ep st of
       Inl x \<Rightarrow> Inl x
     | Inr st1 \<Rightarrow> episodes_loop L E f a write_video names eps st1)"

text \<open>
  Lines 323 and 328: whether the run writes a video, and the check that it does not also
  render on screen.
\<close>
definition output_mode :: "args \<Rightarrow> error + bool" where
  "output_mode a =
    (let write_video = (\<not> args_render a)
     in if args_render a \<and> write_video then Inl (AssertionError One_output_mode)
        else Inr write_video)"

text \<open>Lines 324 to 327: the path of the video, from the dataset path when none is given.\<close>
definition video_path_of :: "args \<Rightarrow> string" where
  "video_path_of a =
    (case args_video_path a of
       Some p \<Rightarrow> p
     | None \<Rightarrow>
         if args_use_actions a
         then split_first ''.hdf5'' (args_dataset a) @ ''_use_actions.mp4''
         else split_first ''.hdf5'' (args_dataset a) @ ''.mp4'')"

text \<open>Lines 331 to 334: the camera or image names, filled in when none are given.\<close>
definition render_image_names_of :: "library \<Rightarrow> hdf5 \<Rightarrow> args \<Rightarrow> error + string list" where
  "render_image_names_of L f a =
    (case args_render_image_names a of
       Some ns \<Rightarrow> Inr ns
     | None \<Rightarrow>
         (case get_env_metadata_from_dataset L f of
            Inl e \<Rightarrow> Inl e
          | Inr env_meta \<Rightarrow> Inr default_render_image_names))"

text \<open>
  Lines 346 to 376: the environment is made unless the replay is from observations. The
  metadata must have the keys \<^verbatim>\<open>env_kwargs\<close> and \<^verbatim>\<open>env_name\<close> (lines 353 and 354); the
  value under \<^verbatim>\<open>env_kwargs\<close> is taken to be a dictionary, as the metadata itself is, so
  that the assignments to its keys go through. Of the keyword arguments of
  \<^verbatim>\<open>robosuite.make\<close> the trace keeps the name of the environment and
  \<^verbatim>\<open>has_offscreen_renderer\<close>. The test of line 369 compares two different string literals
  and is never true.
\<close>
definition make_environment :: "library \<Rightarrow> hdf5 \<Rightarrow> args \<Rightarrow> bool \<Rightarrow> run_state \<Rightarrow> outcome" where
  "make_environment L f a write_video st0 =
    (if \<not> args_use_obs a
     then (case get_env_metadata_from_dataset L f of
             Inl e \<Rightarrow> Inl (e, st0)
           | Inr env_meta \<Rightarrow>
               (case map_of env_meta ''env_kwargs'' of
                  None \<Rightarrow> Inl (KeyError, st0)
                | Some env_kwargs \<Rightarrow>
                    (case map_of env_meta ''env_name'' of
                       None \<Rightarrow> Inl (KeyError, st0)
                     | Some env_name \<Rightarrow>
                         Inr (emit (Robosuite_make env_name write_video)
                                (if args_verbose a
                                 then emit (Print (Initializing_environment env_name)) st0
                                 else st0)))))
     else Inr st0)"

text \<open>Lines 446 to 452: closing the file, the video and the environment.\<close>
definition close_all :: "args \<Rightarrow> bool \<Rightarrow> string \<Rightarrow> run_state \<Rightarrow> run_state" where
  "close_all a write_video video_path st4 =
    (let st5 = emit File_close st4;
         st6 = (if write_video
                then emit Writer_close (emit (Print (Saved_video_to video_path)) st5)
                else st5)
     in if \<not> args_use_obs a then emit Env_close st6 else st6)"

text \<open>
  \<^verbatim>\<open>playback_dataset\<close>, on the opened file \<open>f\<close> and the environment \<open>E\<close> that
  \<^verbatim>\<open>robosuite.make\<close> builds from its \<^verbatim>\<open>env_args\<close>, whose viewer is unset at first.
\<close>
definition playback_dataset :: "library \<Rightarrow> simulator \<Rightarrow> hdf5 \<Rightarrow> args \<Rightarrow> outcome" where
  "playback_dataset L E f a =
    (let st0 = \<lparr>viewer = False, trace = []\<rparr>;
         video_path = video_path_of a
     in case output_mode a of
          Inl e \<Rightarrow> Inl (e, st0)
        | Inr write_video \<Rightarrow>
          (case render_image_names_of L f a of
             Inl e \<Rightarrow> Inl (e, st0)
           | Inr names \<Rightarrow>
               if args_render a \<and> length names \<noteq> 1
               then Inl (AssertionError One_camera_on_screen, st0)
               else if args_use_obs a \<and> \<not> write_video then Inl (AssertionError Obs_to_video, st0)
               else if args_use_obs a \<and> args_use_actions a
               then Inl (AssertionError Obs_without_actions, st0)
               else
                 (case make_environment L f a write_video st0 of
                    Inl x \<Rightarrow> Inl x
                  | Inr st1 \<Rightarrow>
                      (let st2 = (case args_filter_key a of
                                    Some k \<Rightarrow> emit (Print (Using_filter_key k)) st1
                                  | None \<Rightarrow> st1)
                       in case replay_demos L f (args_filter_key a) (args_n a) of
                            Inl e \<Rightarrow> Inl (e, st2)
                          | Inr demos \<Rightarrow>
                              (let st3 = (if write_video then emit (Get_writer video_path) st2
                                          else st2)
                               in case episodes_loop L E f a write_video names demos st3 of
                                    Inl x \<Rightarrow> Inl x
                                  | Inr st4 \<Rightarrow>
                                      Inr (close_all a write_video video_path st4))))))"

subsection \<open>Counting the steps of a run\<close>

text \<open>The calls of \<^verbatim>\<open>env.step\<close> in a trace.\<close>
definition is_step :: "event \<Rightarrow> bool" where
  "is_step e = (case e of Env_step a \<Rightarrow> True | _ \<Rightarrow> False)"

definition steps_taken :: "event list \<Rightarrow> nat" where
  "steps_taken tr = length (filter is_step tr)"

subsection \<open>Sample collaborators\<close>

text \<open>
  Concrete collaborators on which the theorems below are run: robosuite 1.4, a stable
  \<^verbatim>\<open>np.argsort\<close>, a shuffle that reverses, and environments whose state is the number of
  steps taken.
\<close>

text \<open>The metadata of an episode, and the \<^verbatim>\<open>env_args\<close> of a file, as JSON text.\<close>
definition sample_ep_meta :: string where
  \<open>sample_ep_meta = ''{"lang": "go"}''\<close>

definition sample_env_kwargs :: string where
  \<open>sample_env_kwargs = ''{"robots": ["Panda", "Panda"]}''\<close>

definition sample_env_args :: string where
  \<open>sample_env_args =
     ''{"env_name": "TwoArmThreading", "type": 1, "env_kwargs": {"robots": ["Panda", "Panda"]}}''\<close>

text \<open>
  What \<^verbatim>\<open>json.loads\<close> gives on the two sample texts and on \<^verbatim>\<open>{}\<close>; the sample runs
  parse no other text.
\<close>
definition sample_json_loads :: "string \<Rightarrow> ep_meta" where
  "sample_json_loads s =
    (if s = sample_ep_meta then [(''lang'', ''go'')]
     else if s = sample_env_args
     then [(''env_name'', ''TwoArmThreading''), (''type'', ''1''),
           (''env_kwargs'', sample_env_kwargs)]
     else [])"

definition sample_library :: library where
  "sample_library =
    \<lparr>json_loads = sample_json_loads, robosuite_version_id = 4,
     postprocess_model_xml = (\<lambda>x. x),
     np_argsort = (\<lambda>ks. sort_key (\<lambda>i. ks ! i) [0..<length ks]),
     random_shuffle = rev\<rparr>"

definition sample_image :: image where
  "sample_image = [[(1, 1, 1), (2, 2, 2)], [(3, 3, 3), (4, 4, 4)]]"

text \<open>An environment with the given four optional methods.\<close>
definition sample_simulator :: "bool \<Rightarrow> bool \<Rightarrow> bool \<Rightarrow> bool \<Rightarrow> simulator" where
  "sample_simulator attrs meta sites state =
    \<lparr>has_set_attrs_from_ep_meta = attrs, has_set_ep_meta = meta,
     has_update_sites = sites, has_update_state = state,
     edit_model_xml = (\<lambda>x. x),
     check_success = (\<lambda>tr. 2 \<le> steps_taken tr),
     sim_get_state = (\<lambda>tr. [real (steps_taken tr)]),
     sim_render = (\<lambda>tr cam. sample_image),
     model_get_xml = (\<lambda>tr. ''<mujoco/>'')\<rparr>"

definition fresh :: run_state where
  "fresh = \<lparr>viewer = False, trace = []\<rparr>"

definition sample_episode :: episode where
  "sample_episode =
    \<lparr>ep_states = [[0], [1], [5]], ep_actions = Some [[0], [0], [0]],
     ep_model_file = ''<m/>'', ep_ep_meta = None,
     ep_obs = [(''agentview_image'', [sample_image, sample_image])]\<rparr>"

text \<open>A file with the given episode ids, all holding the sample episode.\<close>
definition sample_file :: "string list \<Rightarrow> hdf5" where
  "sample_file ids =
    \<lparr>h5_data = Some (map (\<lambda>k. (k, sample_episode)) ids), h5_env_args = Some sample_env_args,
     h5_mask = [(''train'', ids)]\<rparr>"

text \<open>State replay to a video of one camera, every frame, all episodes.\<close>
definition sample_args :: args where
  "sample_args =
    \<lparr>args_dataset = ''d.hdf5'', args_filter_key = None, args_n = None,
     args_use_obs = False, args_use_actions = False, args_render = False,
     args_video_path = None, args_video_skip = 1,
     args_render_image_names = Some [''agentview''], args_first = False,
     args_extend_states = False, args_verbose = False, args_use_current_model = False\<rparr>"

text \<open>Replay with neither viewer nor video, all steps, not verbose.\<close>
definition sample_playback :: playback where
  "sample_playback =
    \<lparr>render = False, video_writer = False, video_skip = 5,
     camera_names = [''agentview''], first = False, verbose = False\<rparr>"

subsection \<open>Notions the properties are stated with\<close>

text \<open>The number the script sorts an episode id by: \<^verbatim>\<open>int(elem[5:])\<close>.\<close>
definition demo_number :: "string \<Rightarrow> int" where
  "demo_number elem = (case py_int (drop 5 elem) of Some k \<Rightarrow> k | None \<Rightarrow> 0)"

text \<open>The integers that fit the 64-bit integers of a numpy array.\<close>
definition in_int64 :: "int \<Rightarrow> bool" where
  "in_int64 k \<longleftrightarrow> - (2 ^ 63) \<le> k \<and> k < 2 ^ 63"

text \<open>
  What \<^verbatim>\<open>np.argsort\<close> promises on a list of integers that numpy holds exactly, which is
  the case when all of them fit 64 bits: the indices of the list, each once, in an order
  that sorts it. The order of equal keys is left open.
\<close>
definition argsort_contract :: "(int list \<Rightarrow> nat list) \<Rightarrow> bool" where
  "argsort_contract argsort \<longleftrightarrow>
    (\<forall>ks. list_all in_int64 ks \<longrightarrow>
          mset (argsort ks) = mset [0..<length ks] \<and>
          sorted (map (\<lambda>i. ks ! i) (argsort ks)))"

text \<open>
  The distance of the specification: the Euclidean norm of the element-wise difference of
  the recorded and the actual state vector.
\<close>
definition euclidean_distance :: "real list \<Rightarrow> real list \<Rightarrow> real" where
  "euclidean_distance expected actual =
     sqrt (\<Sum>k<length expected. (expected ! k - actual ! k)\<^sup>2)"

text \<open>
  A divergence warning for a step that is neither the last checked step of an episode
  of \<open>traj_len\<close> states nor in a verbose run.
\<close>
definition unwarranted :: "playback \<Rightarrow> nat \<Rightarrow> event \<Rightarrow> bool" where
  "unwarranted P traj_len e =
     (case e of
        Print m \<Rightarrow>
          (case m of
             Playback_diverged err i \<Rightarrow> \<not> (verbose P \<or> i + 2 = traj_len)
           | _ \<Rightarrow> False)
      | _ \<Rightarrow> False)"

text \<open>
  From \<open>st\<close> to \<open>st'\<close> the run made \<open>k\<close> more calls of \<^verbatim>\<open>env.step\<close> and printed no
  unwarranted divergence warning.
\<close>
definition quiet :: "playback \<Rightarrow> nat \<Rightarrow> nat \<Rightarrow> run_state \<Rightarrow> run_state \<Rightarrow> bool" where
  "quiet P traj_len k st st' \<longleftrightarrow>
     steps_taken (trace st') = steps_taken (trace st) + k \<and>
     filter (unwarranted P traj_len) (trace st') = filter (unwarranted P traj_len) (trace st)"

text \<open>The calls on the video writer: opening it, writing a frame, closing it.\<close>
definition is_video_output :: "event \<Rightarrow> bool" where
  "is_video_output e =
     (case e of Get_writer path \<Rightarrow> True | Append_data frame \<Rightarrow> True | Writer_close \<Rightarrow> True
      | _ \<Rightarrow> False)"

text \<open>The run state a run ends in, with or without an error.\<close>
definition final_state :: "(error \<times> run_state) + run_state \<Rightarrow> run_state" where
  "final_state r = (case r of Inl (e, st) \<Rightarrow> st | Inr st \<Rightarrow> st)"

definition video_output :: "run_state \<Rightarrow> event list" where
  "video_output st = filter is_video_output (trace st)"

section \<open>Properties\<close>

lemma trace_emit: "trace (emit e st) = trace st @ [e]"
  by (simp add: emit_def)

lemma viewer_emit: "viewer (emit e st) = viewer st"
  by (simp add: emit_def)

lemma reset_to_trace:
  "trace (snd (reset_to L E st req)) =
     trace st @
     (case req_model req of
        None \<Rightarrow> []
      | Some mdl \<Rightarrow> metadata_calls L E req @ [Env_reset] @ load_calls L E mdl @ [Sim_reset]) @
     state_calls req @ refresh_calls E"
  by (simp add: reset_to_def metadata_calls_def load_calls_def state_calls_def refresh_calls_def
      trace_emit Let_def split: option.splits)

lemma reset_to_viewer: "viewer (snd (reset_to L E st req)) = viewer st"
  by (simp add: reset_to_def viewer_emit Let_def split: option.splits)

subsection \<open>Restoring a simulator state\<close>

text \<open>
  C10. Whatever the environment and the request, \<^verbatim>\<open>reset_to\<close> returns \<^verbatim>\<open>None\<close>, also
  when a state vector was injected: the observation dictionary of its docstring is never
  returned.
\<close>
theorem reset_to_returns_None:
  "fst (reset_to L E st req) = None"
  by (simp add: reset_to_def Let_def split: option.splits prod.splits)

theorem reset_to_returns_None_witness:
  "fst (reset_to sample_library (sample_simulator True True True True) fresh
         \<lparr>req_model = Some ''<m/>'', req_ep_meta = None, req_states = Some [1, 2]\<rparr>) = None"
  by (rule reset_to_returns_None)

text \<open>
  C2, as the code has it. A request with neither a model nor a state vector is not
  rejected: \<^verbatim>\<open>reset_to\<close> skips both branches, makes the refresh calls the environment
  has, and returns \<^verbatim>\<open>None\<close>.
\<close>
theorem reset_to_empty_request:
  assumes "req_model req = None" and "req_states req = None"
  shows "reset_to L E st req = (None, st\<lparr>trace := trace st @ refresh_calls E\<rparr>)"
  using assms
  by (simp add: reset_to_def refresh_calls_def emit_def Let_def)

theorem reset_to_empty_request_witness:
  "reset_to sample_library (sample_simulator True True False True) fresh
     \<lparr>req_model = None, req_ep_meta = Some ''{}'', req_states = None\<rparr>
   = (None, \<lparr>viewer = False, trace = [Update_state]\<rparr>)"
  using reset_to_empty_request
    [of "\<lparr>req_model = None, req_ep_meta = Some ''{}'', req_states = None\<rparr>"
        sample_library "sample_simulator True True False True" fresh]
  by (simp add: refresh_calls_def sample_simulator_def fresh_def)

text \<open>
  The request with no key at all, on an environment with neither refresh method: the call
  returns normally and the run state is what it was.
\<close>
theorem reset_to_empty_request_is_silent:
  "reset_to sample_library (sample_simulator True True False False) fresh
     \<lparr>req_model = None, req_ep_meta = None, req_states = None\<rparr>
   = (None, fresh)"
  by (simp add: reset_to_def sample_simulator_def fresh_def Let_def)

text \<open>
  C3, as the code has it. The calls of \<^verbatim>\<open>reset_to\<close>, in order: with a model, the
  metadata setter the environment has (\<^verbatim>\<open>set_attrs_from_ep_meta\<close> before
  \<^verbatim>\<open>set_ep_meta\<close>, none when it has neither), then \<^verbatim>\<open>env.reset\<close>, then the model is
  normalised and loaded, then \<^verbatim>\<open>env.sim.reset\<close>; without a model none of these. Then,
  with a state vector, it is injected and \<^verbatim>\<open>forward\<close> is called. The refresh calls come
  last.
\<close>
theorem reset_to_call_order:
  "trace (snd (reset_to L E st req)) =
     trace st @
     (case req_model req of
        None \<Rightarrow> []
      | Some mdl \<Rightarrow>
          (if has_set_attrs_from_ep_meta E
             then [Set_attrs_from_ep_meta
                     (case req_ep_meta req of Some m \<Rightarrow> json_loads L m | None \<Rightarrow> [])]
           else if has_set_ep_meta E
             then [Set_ep_meta (case req_ep_meta req of Some m \<Rightarrow> json_loads L m | None \<Rightarrow> [])]
           else []) @
          [Env_reset] @ load_calls L E mdl @ [Sim_reset]) @
     (case req_states req of
        None \<Rightarrow> []
      | Some v \<Rightarrow> [Sim_set_state_from_flattened v, Sim_forward]) @
     refresh_calls E"
  by (simp add: reset_to_trace metadata_calls_def state_calls_def Let_def
      split: option.splits)

theorem reset_to_call_order_witness:
  "trace (snd (reset_to sample_library (sample_simulator False True True False) fresh
                 \<lparr>req_model = Some ''<m/>'', req_ep_meta = Some sample_ep_meta, req_states = Some [7]\<rparr>))
   = [Set_ep_meta [(''lang'', ''go'')], Env_reset, Edit_model_xml ''<m/>'',
      Reset_from_xml_string ''<m/>'', Sim_reset, Sim_set_state_from_flattened [7],
      Sim_forward, Update_sites]"
  using reset_to_call_order
    [of sample_library "sample_simulator False True True False" fresh
        "\<lparr>req_model = Some ''<m/>'', req_ep_meta = Some sample_ep_meta, req_states = Some [7]\<rparr>"]
  by (simp add: load_calls_def refresh_calls_def sample_library_def sample_json_loads_def
      sample_simulator_def fresh_def)

text \<open>
  On an environment with neither metadata setter, a request with a model and metadata
  starts with \<^verbatim>\<open>env.reset\<close>: no metadata is applied.
\<close>
theorem reset_to_without_metadata_setter:
  "trace (snd (reset_to sample_library (sample_simulator False False False False) fresh
                 \<lparr>req_model = Some ''<m/>'', req_ep_meta = Some sample_ep_meta, req_states = None\<rparr>))
   = [Env_reset, Edit_model_xml ''<m/>'', Reset_from_xml_string ''<m/>'', Sim_reset]"
  by (simp add: reset_to_trace metadata_calls_def load_calls_def state_calls_def
      refresh_calls_def sample_library_def sample_simulator_def fresh_def)

text \<open>
  C5, as the code has it. The two refresh methods are tested one after the other, not as
  alternatives: the last calls of \<^verbatim>\<open>reset_to\<close> are \<^verbatim>\<open>update_sites\<close> when the
  environment has it, then \<^verbatim>\<open>update_state\<close> when it has it, so both when it has both and
  none when it has neither; no other call of \<^verbatim>\<open>reset_to\<close> is a refresh call.
\<close>
theorem reset_to_refresh_calls:
  "\<exists>body. trace (snd (reset_to L E st req)) =
            trace st @ body @
            (if has_update_sites E then [Update_sites] else []) @
            (if has_update_state E then [Update_state] else []) \<and>
          Update_sites \<notin> set body \<and> Update_state \<notin> set body"
proof -
  let ?body =
    "(case req_model req of
        None \<Rightarrow> []
      | Some mdl \<Rightarrow> metadata_calls L E req @ [Env_reset] @ load_calls L E mdl @ [Sim_reset]) @
     state_calls req"
  have "trace (snd (reset_to L E st req)) = trace st @ ?body @ refresh_calls E"
    by (simp add: reset_to_trace)
  moreover have "Update_sites \<notin> set ?body" and "Update_state \<notin> set ?body"
    by (simp_all add: metadata_calls_def load_calls_def state_calls_def Let_def
        split: option.splits)
  ultimately show ?thesis
    unfolding refresh_calls_def by blast
qed

theorem reset_to_refresh_calls_witness:
  "\<exists>body. trace (snd (reset_to sample_library (sample_simulator False False True False) fresh
                        \<lparr>req_model = None, req_ep_meta = None, req_states = Some [7]\<rparr>)) =
            body @ [Update_sites] \<and>
          Update_sites \<notin> set body \<and> Update_state \<notin> set body"
  using reset_to_refresh_calls
    [of sample_library "sample_simulator False False True False" fresh
        "\<lparr>req_model = None, req_ep_meta = None, req_states = Some [7]\<rparr>"]
  by (simp add: sample_simulator_def fresh_def)

text \<open>An environment with both refresh methods gets both calls.\<close>
theorem reset_to_calls_both_refresh_methods:
  "trace (snd (reset_to sample_library (sample_simulator False False True True) fresh
                 \<lparr>req_model = None, req_ep_meta = None, req_states = Some [7]\<rparr>))
   = [Sim_set_state_from_flattened [7], Sim_forward, Update_sites, Update_state]"
  by (simp add: reset_to_trace state_calls_def refresh_calls_def sample_simulator_def fresh_def)

subsection \<open>Frames of several cameras\<close>

lemma upt_2: "[0..<2] = [0, Suc 0]"
  by (simp add: upt_conv_Cons)

lemma np_concatenate_axis1_same_height:
  assumes "frames \<noteq> []" and "\<forall>im\<in>set frames. length im = h"
  shows "np_concatenate_axis1 frames =
           Some (map (\<lambda>r. concat (map (\<lambda>im. im ! r) frames)) [0..<h])"
  using assms by (cases frames) (auto simp: np_concatenate_axis1_def list_all_iff)





subsection \<open>The order of the episodes\<close>

lemma those_map_Some:
  "(\<forall>x\<in>set xs. f x \<noteq> None) \<Longrightarrow> those (map f xs) = Some (map (\<lambda>x. the (f x)) xs)"
  by (induction xs) auto

lemma stable_argsort_contract:
  "argsort_contract (\<lambda>ks. sort_key (\<lambda>i. ks ! i) [0..<length ks])"
  unfolding argsort_contract_def
  by simp

lemma reorder_mset:
  assumes "mset inds = mset [0..<length xs]"
  shows "mset (map (\<lambda>i. xs ! i) inds) = mset xs"
proof -
  have "mset (map (\<lambda>i. xs ! i) inds) = image_mset (\<lambda>i. xs ! i) (mset inds)" by simp
  also have "\<dots> = mset (map (\<lambda>i. xs ! i) [0..<length xs])" by (simp add: assms)
  also have "\<dots> = mset xs" by (simp add: map_nth)
  finally show ?thesis .
qed

lemma reorder_keys:
  assumes "mset inds = mset [0..<length xs]"
  shows "map f (map (\<lambda>i. xs ! i) inds) = map (\<lambda>i. map f xs ! i) inds"
proof -
  have "set inds = {0..<length xs}"
    using assms by (metis set_mset_mset set_upt)
  then show ?thesis by auto
qed

lemma list_demos_sorted:
  assumes contract: "argsort_contract (np_argsort L)"
      and stored: "stored_demos f filter_key = Inr ids"
      and parse: "\<forall>elem\<in>set ids. \<exists>k. py_int (drop 5 elem) = Some k \<and> in_int64 k"
  shows "\<exists>demos. list_demos L f filter_key = Inr demos \<and> mset demos = mset ids \<and>
           sorted (map demo_number demos) \<and>
           (distinct (map demo_number ids) \<longrightarrow> sorted_wrt (<) (map demo_number demos))"
proof -
  let ?keys = "map demo_number ids"
  let ?inds = "np_argsort L ?keys"
  let ?demos = "map (\<lambda>i. ids ! i) ?inds"
  have some: "\<forall>elem\<in>set ids. py_int (drop 5 elem) \<noteq> None"
    using parse by auto
  have keys: "those (map (\<lambda>elem. py_int (drop 5 elem)) ids) = Some ?keys"
    using some by (subst those_map_Some) (auto simp: demo_number_def)
  have range: "list_all in_int64 ?keys"
    using parse by (auto simp: list_all_iff demo_number_def)
  have perm: "mset ?inds = mset [0..<length ids]"
    and srt: "sorted (map (\<lambda>i. ?keys ! i) ?inds)"
    using contract range unfolding argsort_contract_def by (metis length_map)+
  have res: "list_demos L f filter_key = Inr ?demos"
    by (simp add: list_demos_def stored keys)
  have m: "mset ?demos = mset ids"
    using perm by (rule reorder_mset)
  have k: "map demo_number ?demos = map (\<lambda>i. ?keys ! i) ?inds"
    using perm by (rule reorder_keys)
  have s: "sorted (map demo_number ?demos)"
    unfolding k by (rule srt)
  have d: "sorted_wrt (<) (map demo_number ?demos)" if "distinct ?keys"
  proof -
    have "mset (map demo_number ?demos) = mset ?keys"
      using m by (metis mset_map)
    then have "distinct (map demo_number ?demos)"
      using that by (metis mset_eq_imp_distinct_iff)
    with s show ?thesis by (simp add: strict_sorted_iff)
  qed
  show ?thesis using res m s d by blast
qed

lemmas py_int_simps = py_int_def parse_number_def int_max_str_digits_def is_space_def
  is_digit_def digit_val_def

text \<open>
  C6, as the code has it. When every stored id (the mask under the filter key, or the
  keys of \<^verbatim>\<open>data\<close>) is five characters followed by text that \<^verbatim>\<open>int\<close> reads as a number
  that fits 64 bits, and no episode cap is given, the episodes to replay are the stored
  ids, each as often as stored, in ascending order of \<^verbatim>\<open>int(elem[5:])\<close>, whatever the stored
  order; the order is strictly ascending when these numbers differ from each other.
\<close>
theorem episodes_in_ascending_order:
  assumes "argsort_contract (np_argsort L)"
      and "stored_demos f filter_key = Inr ids"
      and "\<forall>elem\<in>set ids. \<exists>k. py_int (drop 5 elem) = Some k \<and> in_int64 k"
  shows "\<exists>demos. replay_demos L f filter_key None = Inr demos \<and> mset demos = mset ids \<and>
           sorted (map demo_number demos) \<and>
           (distinct (map demo_number ids) \<longrightarrow> sorted_wrt (<) (map demo_number demos))"
  using list_demos_sorted [OF assms] by (auto simp: replay_demos_def)

theorem episodes_in_ascending_order_witness:
  "(\<exists>demos. replay_demos sample_library (sample_file [''demo_10'', ''demo_2'']) None None = Inr demos \<and>
            mset demos = mset [''demo_10'', ''demo_2''] \<and>
            sorted (map demo_number demos) \<and> sorted_wrt (<) (map demo_number demos)) \<and>
   replay_demos sample_library (sample_file [''demo_10'', ''demo_2'']) None None
     = Inr [''demo_2'', ''demo_10'']"
proof -
  have c: "argsort_contract (np_argsort sample_library)"
    by (simp add: sample_library_def stable_argsort_contract)
  have s: "stored_demos (sample_file [''demo_10'', ''demo_2'']) None = Inr [''demo_10'', ''demo_2'']"
    by (simp add: stored_demos_def sample_file_def)
  have p: "\<forall>elem\<in>set [''demo_10'', ''demo_2'']. \<exists>k. py_int (drop 5 elem) = Some k \<and> in_int64 k"
    by (simp add: py_int_simps in_int64_def)
  have d: "distinct (map demo_number [''demo_10'', ''demo_2''])"
    by (simp add: demo_number_def py_int_simps)
  have "replay_demos sample_library (sample_file [''demo_10'', ''demo_2'']) None None
          = Inr [''demo_2'', ''demo_10'']"
    by (simp add: replay_demos_def list_demos_def s py_int_simps sample_library_def upt_2)
  with episodes_in_ascending_order [OF c s p] d show ?thesis by simp
qed

text \<open>
  With an episode cap the sorted list is shuffled; ids of another shape stop the run with
  a \<^verbatim>\<open>ValueError\<close>; two ids with the same number are not in strictly ascending order.
\<close>
theorem replay_order_counterexample:
  "replay_demos sample_library (sample_file [''demo_2'', ''demo_10'']) None (Some 2)
     = Inr [''demo_10'', ''demo_2''] \<and>
   replay_demos sample_library (sample_file [''ep10'', ''ep2'']) None None = Inl ValueError \<and>
   replay_demos sample_library (sample_file [''demo_1'', ''demo_01'']) None None
     = Inr [''demo_1'', ''demo_01''] \<and>
   map demo_number [''demo_1'', ''demo_01''] = [1, 1]"
  by (simp add: replay_demos_def list_demos_def stored_demos_def sample_file_def py_int_simps
      sample_library_def upt_2 py_take_def demo_number_def)

subsection \<open>Replaying the actions of an episode\<close>

lemma np_all_equal:
  "length xs = length ys \<Longrightarrow> np_all (map2 (\<lambda>x y. x = y) xs ys) \<longleftrightarrow> xs = ys"
  by (induction xs ys rule: list_induct2) (auto simp: np_all_def)

lemma linalg_norm_difference:
  assumes "length xs = length ys"
  shows "linalg_norm (map2 (\<lambda>x y. x - y) xs ys) = euclidean_distance xs ys"
proof -
  have "sum_list (map (\<lambda>x. \<bar>x\<bar> ^ 2) (map2 (\<lambda>x y. x - y) xs ys)) =
        (\<Sum>k<length xs. (xs ! k - ys ! k)\<^sup>2)"
    using assms by (simp add: sum_list_sum_nth atLeast0LessThan)
  then show ?thesis
    by (simp add: linalg_norm_def euclidean_distance_def)
qed

lemma check_playback_same_length:
  assumes "length (states ! (i + 1)) = length (sim_get_state E (trace st))"
  shows "check_playback E P states traj_len i st =
           Inr (if states ! (i + 1) = sim_get_state E (trace st) then emit Sim_get_state st
                else if verbose P \<or> i + 2 = traj_len
                then emit (Print (Playback_diverged
                             (euclidean_distance (states ! (i + 1)) (sim_get_state E (trace st))) i))
                       (emit Sim_get_state st)
                else emit Sim_get_state st)"
proof -
  have "int i = int traj_len - 2 \<longleftrightarrow> i + 2 = traj_len" by linarith
  then show ?thesis
    using assms
    by (simp add: check_playback_def np_equal_def np_subtract_def np_broadcast_def
        np_all_equal linalg_norm_difference Let_def)
qed

lemma quiet_refl: "quiet P T 0 st st"
  by (simp add: quiet_def)

lemma quiet_trans: "quiet P T j a b \<Longrightarrow> quiet P T k b c \<Longrightarrow> quiet P T (j + k) a c"
  by (simp add: quiet_def)

lemma quiet_emit:
  "\<not> is_step e \<Longrightarrow> \<not> unwarranted P T e \<Longrightarrow> quiet P T 0 st (emit e st)"
  by (simp add: quiet_def emit_def steps_taken_def)

lemma quiet_viewer: "quiet P T k st (st'\<lparr>viewer := v\<rparr>) = quiet P T k st st'"
  by (simp add: quiet_def)

lemma quiet_reset_to: "quiet P T 0 st (snd (reset_to L E st req))"
  by (simp add: quiet_def reset_to_trace steps_taken_def is_step_def unwarranted_def
      metadata_calls_def load_calls_def state_calls_def refresh_calls_def Let_def
      split: option.splits)

lemma quiet_check_playback:
  assumes "length (states ! (i + 1)) = length (sim_get_state E (trace st))"
  shows "\<exists>st'. check_playback E P states T i st = Inr st' \<and> quiet P T 0 st st' \<and>
               viewer st' = viewer st"
  by (simp add: check_playback_same_length [OF assms] quiet_def emit_def steps_taken_def
      is_step_def unwarranted_def)

lemma quiet_advance:
  assumes dim: "\<forall>s\<in>set states. length s = d" "\<forall>tr. length (sim_get_state E tr) = d"
      and T: "T = length states"
  shows "\<exists>success' st'. advance L E P states (Some acts) T i (success, st) = Inr (success', st') \<and>
           quiet P T 1 st st' \<and> viewer st' = viewer st"
proof (cases "int i < int T - 1")
  case True
  let ?st2 = "emit Check_success (emit (Env_step (acts ! i)) st)"
  have "states ! (i + 1) \<in> set states"
    using True T by simp
  then have "length (states ! (i + 1)) = length (sim_get_state E (trace ?st2))"
    using dim by simp
  from quiet_check_playback [OF this, of P T]
  obtain st' where c: "check_playback E P states T i ?st2 = Inr st'"
    and q: "quiet P T 0 ?st2 st'" and v: "viewer st' = viewer ?st2"
    by blast
  have "quiet P T 1 st ?st2"
    by (simp add: quiet_def emit_def steps_taken_def is_step_def unwarranted_def)
  with q have "quiet P T 1 st st'"
    using quiet_trans by fastforce
  then show ?thesis
    using True c v by (simp add: advance_def Let_def emit_def)
next
  case False
  then show ?thesis
    by (simp add: advance_def Let_def quiet_def emit_def steps_taken_def is_step_def
        unwarranted_def)
qed

lemma quiet_on_screen:
  "quiet P T 0 st (on_screen P st) \<and> viewer (on_screen P st) = (render P \<or> viewer st)"
  by (simp add: on_screen_def quiet_def emit_def steps_taken_def is_step_def unwarranted_def)

lemma render_cameras_heights:
  assumes "\<forall>tr c. length (sim_render E tr c) = h"
  shows "\<forall>im\<in>set (fst (render_cameras E cams st)). length im = h"
  using assms by (induction cams arbitrary: st) (simp_all add: Let_def split_def)

lemma render_cameras_length:
  "length (fst (render_cameras E cams st)) = length cams"
  by (induction cams arbitrary: st) (simp_all add: Let_def split_def)

lemma render_cameras_trace:
  "trace (snd (render_cameras E cams st)) = trace st @ map Sim_render cams"
  by (induction cams arbitrary: st) (simp_all add: Let_def split_def emit_def)

lemma render_cameras_viewer:
  "viewer (snd (render_cameras E cams st)) = viewer st"
  by (induction cams arbitrary: st) (simp_all add: Let_def split_def emit_def)

lemma quiet_video_render:
  assumes "video_writer P \<longrightarrow>
             video_skip P \<noteq> 0 \<and> camera_names P \<noteq> [] \<and> (\<forall>tr c. length (sim_render E tr c) = h)"
  shows "\<exists>video_count' st'. video_render E P (video_count, st) = Inr (video_count', st') \<and>
           quiet P T 0 st st' \<and> viewer st' = viewer st"
proof (cases "video_writer P \<and> int video_count mod video_skip P = 0")
  case False
  then show ?thesis
    using assms by (simp add: video_render_def quiet_def)
next
  case True
  let ?r = "render_cameras E (camera_names P) st"
  have "fst ?r \<noteq> []"
    using render_cameras_length [of E "camera_names P" st] True assms
    by (metis length_0_conv)
  moreover have "\<forall>im\<in>set (fst ?r). length im = h"
    using render_cameras_heights [of E h "camera_names P" st] True assms by blast
  ultimately obtain frame where f: "np_concatenate_axis1 (fst ?r) = Some frame"
    using np_concatenate_axis1_same_height by blast
  have "quiet P T 0 st (emit (Append_data frame) (snd ?r))"
    by (simp add: quiet_def emit_def render_cameras_trace steps_taken_def is_step_def
        unwarranted_def filter_map comp_def)
  moreover have "viewer (emit (Append_data frame) (snd ?r)) = viewer st"
    by (simp add: emit_def render_cameras_viewer)
  moreover have "video_render E P (video_count, st) =
                   Inr (video_count + 1, emit (Append_data frame) (snd ?r))"
    using True assms f by (simp add: video_render_def split_def)
  ultimately show ?thesis by blast
qed

lemma quiet_replay_loop:
  assumes dim: "\<forall>s\<in>set states. length s = d" "\<forall>tr. length (sim_get_state E tr) = d"
      and vid: "video_writer P \<longrightarrow>
                  video_skip P \<noteq> 0 \<and> camera_names P \<noteq> [] \<and>
                  (\<forall>tr c. length (sim_render E tr c) = h)"
      and T: "T = length states"
  shows "\<exists>success' video_count' st'.
           replay_loop L E P states (Some acts) T js (success, video_count, st) =
             Inr (success', video_count', st') \<and>
           quiet P T (if first P then min 1 (length js) else length js) st st' \<and>
           viewer st' = (viewer st \<or> (render P \<and> js \<noteq> []))"
proof (induction js arbitrary: success video_count st)
  case Nil
  show ?case by (simp add: quiet_refl)
next
  case (Cons i js)
  obtain s1 st1 where a: "advance L E P states (Some acts) T i (success, st) = Inr (s1, st1)"
    and qa: "quiet P T 1 st st1" and va: "viewer st1 = viewer st"
    using quiet_advance [OF dim T] by blast
  have qo: "quiet P T 0 st1 (on_screen P st1)"
    and vo: "viewer (on_screen P st1) = (render P \<or> viewer st1)"
    using quiet_on_screen by blast+
  obtain vc2 st2 where r: "video_render E P (video_count, on_screen P st1) = Inr (vc2, st2)"
    and qr: "quiet P T 0 (on_screen P st1) st2" and vr: "viewer st2 = viewer (on_screen P st1)"
    using quiet_video_render [OF vid] by blast
  have q2: "quiet P T 1 st st2"
    using quiet_trans [OF quiet_trans [OF qa qo] qr] by simp
  have v2: "viewer st2 = (render P \<or> viewer st)"
    using vr vo va by simp
  show ?case
  proof (cases "first P")
    case True
    then show ?thesis
      using a r q2 v2 by auto
  next
    case False
    obtain s3 vc3 st3 where
      l: "replay_loop L E P states (Some acts) T js (s1, vc2, st2) = Inr (s3, vc3, st3)"
      and ql: "quiet P T (length js) st2 st3"
      and vl: "viewer st3 = (viewer st2 \<or> (render P \<and> js \<noteq> []))"
      using Cons.IH [of s1 vc2 st2] False by auto
    have "quiet P T (length (i # js)) st st3"
      using quiet_trans [OF q2 ql] by simp
    moreover have "viewer st3 = (viewer st \<or> render P)"
      using vl v2 by auto
    ultimately show ?thesis
      using a r l False by auto
  qed
qed

lemma quiet_warnings:
  assumes "quiet P T k st st'" and "Print (Playback_diverged err i) \<in> set (trace st')"
  shows "Print (Playback_diverged err i) \<in> set (trace st) \<or> verbose P \<or> i + 2 = T"
proof (cases "verbose P \<or> i + 2 = T")
  case True
  then show ?thesis by blast
next
  case False
  then have "unwarranted P T (Print (Playback_diverged err i))"
    by (simp add: unwarranted_def)
  with assms(2) have "Print (Playback_diverged err i) \<in> set (filter (unwarranted P T) (trace st'))"
    by simp
  moreover have "filter (unwarranted P T) (trace st') = filter (unwarranted P T) (trace st)"
    using assms(1) by (simp add: quiet_def)
  ultimately have "Print (Playback_diverged err i) \<in> set (filter (unwarranted P T) (trace st))"
    by simp
  then have "Print (Playback_diverged err i) \<in> set (trace st)"
    by (simp only: set_filter mem_Collect_eq)
  then show ?thesis by blast
qed

lemma quiet_announce:
  assumes "verbose P \<longrightarrow> req_ep_meta initial_state \<noteq> None"
  shows "\<exists>st1. announce L P initial_state st = Inr st1 \<and> quiet P T 0 st st1 \<and>
               viewer st1 = viewer st"
  using assms
  by (auto simp: announce_def Let_def quiet_def emit_def steps_taken_def is_step_def
      unwarranted_def split: option.splits)

lemmas run_defs = playback_trajectory_with_env_def announce_def finish_def advance_def check_playback_def on_screen_def
  video_render_def reset_to_def emit_def np_equal_def np_subtract_def np_broadcast_def np_all_def
  np_concatenate_axis1_def sample_library_def sample_json_loads_def sample_simulator_def
  steps_taken_def is_step_def
  sample_image_def fresh_def sample_playback_def Let_def

text \<open>
  C4, as the code has it. After a step by action, when the recorded next state and the
  state of the simulator have the same length: if they are equal, nothing is computed and
  nothing is printed; if they differ, the distance is the Euclidean norm of their
  element-wise difference, and it is printed, with the step, when the run is verbose or
  the step is the last checked one, and not otherwise.
\<close>
theorem divergence_distance:
  assumes "length (states ! (i + 1)) = length (sim_get_state E (trace st))"
  shows "check_playback E P states traj_len i st =
           Inr (if states ! (i + 1) = sim_get_state E (trace st) then emit Sim_get_state st
                else if verbose P \<or> i + 2 = traj_len
                then emit (Print (Playback_diverged
                             (euclidean_distance (states ! (i + 1)) (sim_get_state E (trace st))) i))
                       (emit Sim_get_state st)
                else emit Sim_get_state st)"
  using assms by (rule check_playback_same_length)

theorem divergence_distance_witness:
  "check_playback (sample_simulator False True False True) sample_playback [[0], [4]] 2 0 fresh =
     Inr \<lparr>viewer = False, trace = [Sim_get_state, Print (Playback_diverged 4 0)]\<rparr>"
proof -
  have len: "length ([[0], [4]] ! (0 + 1)) =
             length (sim_get_state (sample_simulator False True False True) (trace fresh))"
    by (simp add: sample_simulator_def)
  show ?thesis
    using divergence_distance [OF len, of sample_playback 2]
    by (simp add: euclidean_distance_def emit_def sample_simulator_def steps_taken_def
        fresh_def sample_playback_def)
qed

text \<open>
  A verbose replay of two recorded states that the simulator reproduces exactly: the
  state is read and compared after the first step, and no distance is printed.
\<close>
theorem equal_states_report_no_distance:
  "playback_trajectory_with_env sample_library (sample_simulator False True False True)
     \<lparr>req_model = Some ''<m/>'', req_ep_meta = Some sample_ep_meta, req_states = Some [0]\<rparr>
     [[0], [1]] (Some [[0], [0]]) (sample_playback\<lparr>verbose := True\<rparr>) fresh =
   Inr \<lparr>viewer = False,
        trace =
          [Print (Instruction ''go''), Print Spawning_environment,
           Set_ep_meta [(''lang'', ''go'')], Env_reset, Edit_model_xml ''<m/>'',
           Reset_from_xml_string ''<m/>'', Sim_reset, Sim_set_state_from_flattened [0],
           Sim_forward, Update_state, Print Running_episode, Env_step [0], Check_success,
           Sim_get_state, Env_step [0], Check_success]\<rparr>"
  by (simp add: run_defs upt_2)

text \<open>
  C7. A replay by actions of an episode whose actions are as many as its states, with the
  states and the simulator's state of one length, one output mode and, for video, a
  frame period other than zero and at least one camera: the run ends without an error
  whatever the simulator's states are, \<^verbatim>\<open>env.step\<close> is called once for every state (once in
  all with the first-frame flag), and every divergence warning it prints is for a verbose
  run or for the last checked step.
\<close>
theorem divergence_never_aborts:
  assumes len: "length acts = length states"
      and modes: "\<not> (render P \<and> video_writer P)"
      and meta: "verbose P \<longrightarrow> req_ep_meta initial_state \<noteq> None"
      and dim: "\<forall>s\<in>set states. length s = d" "\<forall>tr. length (sim_get_state E tr) = d"
      and vid: "video_writer P \<longrightarrow>
                  video_skip P \<noteq> 0 \<and> camera_names P \<noteq> [] \<and>
                  (\<forall>tr c. length (sim_render E tr c) = h)"
      and scr: "render P \<longrightarrow> states \<noteq> [] \<or> viewer st"
  shows "\<exists>st'. playback_trajectory_with_env L E initial_state states (Some acts) P st = Inr st' \<and>
           steps_taken (trace st') =
             steps_taken (trace st) + (if first P then min 1 (length states) else length states) \<and>
           (\<forall>err i. Print (Playback_diverged err i) \<in> set (trace st') \<longrightarrow>
              Print (Playback_diverged err i) \<in> set (trace st) \<or> verbose P \<or>
              i + 2 = length states)"
proof -
  let ?T = "length states"
  let ?k = "if first P then min 1 ?T else ?T"
  obtain st1 where pre: "announce L P initial_state st = Inr st1"
    and q1: "quiet P ?T 0 st st1" and v1: "viewer st1 = viewer st"
    using quiet_announce [OF meta] by blast
  let ?st2 = "snd (reset_to L E st1 initial_state)"
  let ?st3 = "if \<not> render P then emit (Print Running_episode) ?st2 else ?st2"
  have q3: "quiet P ?T 0 st ?st3"
    using quiet_trans [OF q1 quiet_reset_to [of P ?T st1 L E initial_state]]
      quiet_trans [OF _ quiet_emit [of "Print Running_episode" P ?T ?st2]]
    by (simp add: is_step_def unwarranted_def)
  have v3: "viewer ?st3 = viewer st"
    by (simp add: reset_to_viewer v1 emit_def)
  have "\<exists>success vc st4.
          replay_loop L E P states (Some acts) ?T [0..<?T] (False, 0, ?st3) =
            Inr (success, vc, st4) \<and>
          quiet P ?T ?k ?st3 st4 \<and>
          viewer st4 = (viewer ?st3 \<or> (render P \<and> [0..<?T] \<noteq> []))"
    using quiet_replay_loop [OF dim vid refl, of L acts "[0..<?T]" False 0 ?st3]
    by (simp only: length_upt diff_zero)
  then obtain success vc st4 where
    l: "replay_loop L E P states (Some acts) ?T [0..<?T] (False, 0, ?st3) = Inr (success, vc, st4)"
    and q4: "quiet P ?T ?k ?st3 st4"
    and v4: "viewer st4 = (viewer ?st3 \<or> (render P \<and> [0..<?T] \<noteq> []))"
    by blast
  have open_viewer: "render P \<longrightarrow> viewer st4"
    using v4 v3 scr by auto
  let ?st5 = "if render P then (emit Viewer_close st4)\<lparr>viewer := False\<rparr> else st4"
  let ?st6 = "if \<not> success then emit (Print Playback_did_not_success) ?st5 else ?st5"
  have q6: "quiet P ?T 0 st4 ?st6"
    by (simp add: quiet_def emit_def steps_taken_def is_step_def unwarranted_def)
  have q: "quiet P ?T ?k st ?st6"
    using quiet_trans [OF quiet_trans [OF q3 q4] q6] by simp
  have run: "playback_trajectory_with_env L E initial_state states (Some acts) P st = Inr ?st6"
    using modes pre len l open_viewer
    by (simp add: playback_trajectory_with_env_def finish_def Let_def)
  show ?thesis
    using run q quiet_warnings [OF q] by (auto simp: quiet_def)
qed

theorem divergence_never_aborts_witness:
  "(\<exists>st'. playback_trajectory_with_env sample_library (sample_simulator False True False True)
            \<lparr>req_model = Some ''<m/>'', req_ep_meta = None, req_states = Some [0]\<rparr>
            [[0], [7], [2]] (Some [[0], [0], [0]]) sample_playback fresh = Inr st' \<and>
          steps_taken (trace st') = 3) \<and>
   playback_trajectory_with_env sample_library (sample_simulator False True False True)
     \<lparr>req_model = Some ''<m/>'', req_ep_meta = None, req_states = Some [0]\<rparr>
     [[0], [7], [2]] (Some [[0], [0], [0]]) sample_playback fresh =
   Inr \<lparr>viewer = False,
        trace =
          [Set_ep_meta [], Env_reset, Edit_model_xml ''<m/>'', Reset_from_xml_string ''<m/>'',
           Sim_reset, Sim_set_state_from_flattened [0], Sim_forward, Update_state,
           Print Running_episode, Env_step [0], Check_success, Sim_get_state, Env_step [0],
           Check_success, Sim_get_state, Env_step [0], Check_success]\<rparr>"
proof -
  let ?E = "sample_simulator False True False True"
  let ?req = "\<lparr>req_model = Some ''<m/>'', req_ep_meta = None, req_states = Some [0]\<rparr>"
  have len: "length [[0], [0], [0::real]] = length [[0], [7], [2::real]]" by simp
  have modes: "\<not> (render sample_playback \<and> video_writer sample_playback)"
    by (simp add: sample_playback_def)
  have meta: "verbose sample_playback \<longrightarrow> req_ep_meta ?req \<noteq> None"
    by (simp add: sample_playback_def)
  have dim: "\<forall>s\<in>set [[0], [7], [2::real]]. length s = 1"
    "\<forall>tr. length (sim_get_state ?E tr) = 1"
    by (simp_all add: sample_simulator_def)
  have vid: "video_writer sample_playback \<longrightarrow>
               video_skip sample_playback \<noteq> 0 \<and> camera_names sample_playback \<noteq> [] \<and>
               (\<forall>tr c. length (sim_render ?E tr c) = 2)"
    by (simp add: sample_playback_def)
  have scr: "render sample_playback \<longrightarrow> [[0], [7], [2::real]] \<noteq> [] \<or> viewer fresh"
    by simp
  have run: "playback_trajectory_with_env sample_library ?E ?req
               [[0], [7], [2]] (Some [[0], [0], [0]]) sample_playback fresh =
             Inr \<lparr>viewer = False,
                  trace =
                    [Set_ep_meta [], Env_reset, Edit_model_xml ''<m/>'',
                     Reset_from_xml_string ''<m/>'', Sim_reset,
                     Sim_set_state_from_flattened [0], Sim_forward, Update_state,
                     Print Running_episode, Env_step [0], Check_success, Sim_get_state,
                     Env_step [0], Check_success, Sim_get_state, Env_step [0],
                     Check_success]\<rparr>"
    by (simp add: run_defs upt_conv_Cons)
  from divergence_never_aborts [OF len modes meta dim vid scr, of sample_library]
  obtain st' where
    "playback_trajectory_with_env sample_library ?E ?req
       [[0], [7], [2]] (Some [[0], [0], [0]]) sample_playback fresh = Inr st'"
    and "steps_taken (trace st') =
           steps_taken (trace fresh) +
           (if first sample_playback then min 1 (length [[0], [7], [2::real]])
            else length [[0], [7], [2::real]])"
    by blast
  then have "\<exists>st'. playback_trajectory_with_env sample_library ?E ?req
                      [[0], [7], [2]] (Some [[0], [0], [0]]) sample_playback fresh = Inr st' \<and>
                    steps_taken (trace st') = 3"
    by (simp add: sample_playback_def fresh_def steps_taken_def)
  with run show ?thesis by simp
qed

subsection \<open>Extended states with replay by actions\<close>

lemma steps_emit: "\<not> is_step e \<Longrightarrow> steps_taken (trace (emit e st)) = steps_taken (trace st)"
  by (simp add: emit_def steps_taken_def)

lemma steps_reset_to: "steps_taken (trace (snd (reset_to L E st req))) = steps_taken (trace st)"
  by (simp add: reset_to_trace steps_taken_def is_step_def metadata_calls_def load_calls_def
      state_calls_def refresh_calls_def Let_def split: option.splits)

lemmas episode_defs = playback_episode_def sample_file_def sample_episode_def sample_args_def

text \<open>
  C9, as the code has it. For an episode of the file with at least one state and as many
  actions as states, replayed from the simulator by actions with the extend flag set, and
  either not verbose or with metadata: the pass over the episode fails on the assertion
  that states and actions are equally many, after the initial \<^verbatim>\<open>reset_to\<close> and before any
  call of \<^verbatim>\<open>env.step\<close>.
\<close>
theorem extended_states_fail_length_check:
  assumes grp: "h5_data f = Some d" "map_of d ep = Some grp"
      and mode: "\<not> args_use_obs a" "args_use_actions a" "args_extend_states a"
      and acts: "ep_actions grp = Some acts" "length acts = length (ep_states grp)"
      and nonempty: "ep_states grp \<noteq> []"
      and out: "write_video = (\<not> args_render a)"
      and meta: "args_verbose a \<longrightarrow> ep_ep_meta grp \<noteq> None"
  shows "\<exists>st'. playback_episode L E f a write_video names ep st =
                 Inl (AssertionError Same_length, st') \<and>
               steps_taken (trace st') = steps_taken (trace st)"
  using assms
  by (auto simp: playback_episode_def playback_trajectory_with_env_def announce_def Let_def
      split_def steps_reset_to steps_emit is_step_def split: option.splits)

theorem extended_states_fail_length_check_witness:
  "(\<exists>st'. playback_episode sample_library (sample_simulator False True False True)
            (sample_file [''demo_0''])
            (sample_args\<lparr>args_use_actions := True, args_extend_states := True\<rparr>)
            True [''agentview''] ''demo_0'' fresh = Inl (AssertionError Same_length, st') \<and>
          steps_taken (trace st') = 0) \<and>
   playback_episode sample_library (sample_simulator False True False True)
     (sample_file [''demo_0''])
     (sample_args\<lparr>args_use_actions := True, args_extend_states := True\<rparr>)
     True [''agentview''] ''demo_0'' fresh =
   Inl (AssertionError Same_length,
        \<lparr>viewer = False,
         trace =
           [Print (Playing_back_episode ''demo_0''), Set_ep_meta [], Env_reset,
            Edit_model_xml ''<m/>'', Reset_from_xml_string ''<m/>'', Sim_reset,
            Sim_set_state_from_flattened [0], Sim_forward, Update_state]\<rparr>)"
proof -
  let ?a = "sample_args\<lparr>args_use_actions := True, args_extend_states := True\<rparr>"
  have grp: "h5_data (sample_file [''demo_0'']) = Some [(''demo_0'', sample_episode)]"
    "map_of [(''demo_0'', sample_episode)] ''demo_0'' = Some sample_episode"
    by (simp_all add: sample_file_def)
  have mode: "\<not> args_use_obs ?a" "args_use_actions ?a" "args_extend_states ?a"
    by (simp_all add: sample_args_def)
  have acts: "ep_actions sample_episode = Some [[0], [0], [0]]"
    "length [[0], [0], [0::real]] = length (ep_states sample_episode)"
    by (simp_all add: sample_episode_def)
  have nonempty: "ep_states sample_episode \<noteq> []"
    by (simp add: sample_episode_def)
  have out: "True = (\<not> args_render ?a)"
    by (simp add: sample_args_def)
  have meta: "args_verbose ?a \<longrightarrow> ep_ep_meta sample_episode \<noteq> None"
    by (simp add: sample_args_def)
  have "\<exists>st'. playback_episode sample_library (sample_simulator False True False True)
            (sample_file [''demo_0'']) ?a True [''agentview''] ''demo_0'' fresh =
              Inl (AssertionError Same_length, st') \<and>
            steps_taken (trace st') = 0"
    using extended_states_fail_length_check [OF grp mode acts nonempty out meta,
        of sample_library "sample_simulator False True False True" "[''agentview'']" fresh]
    by (simp add: fresh_def steps_taken_def)
  moreover have "playback_episode sample_library (sample_simulator False True False True)
     (sample_file [''demo_0'']) ?a True [''agentview''] ''demo_0'' fresh =
   Inl (AssertionError Same_length,
        \<lparr>viewer = False,
         trace =
           [Print (Playing_back_episode ''demo_0''), Set_ep_meta [], Env_reset,
            Edit_model_xml ''<m/>'', Reset_from_xml_string ''<m/>'', Sim_reset,
            Sim_set_state_from_flattened [0], Sim_forward, Update_state]\<rparr>)"
    by (simp add: episode_defs run_defs)
  ultimately show ?thesis by blast
qed

text \<open>
  The same episode, which has no metadata, in a verbose run: the pass fails on
  \<^verbatim>\<open>json.loads(None)\<close> at line 98, before \<^verbatim>\<open>reset_to\<close> and before the assertion.
\<close>
theorem extended_states_verbose_without_metadata:
  "playback_episode sample_library (sample_simulator False True False True)
     (sample_file [''demo_0''])
     (sample_args\<lparr>args_use_actions := True, args_extend_states := True, args_verbose := True\<rparr>)
     True [''agentview''] ''demo_0'' fresh =
   Inl (TypeError, \<lparr>viewer = False, trace = [Print (Playing_back_episode ''demo_0'')]\<rparr>)"
  by (simp add: episode_defs run_defs)

subsection \<open>On-screen rendering and the video path\<close>

lemma video_output_emit:
  "\<not> is_video_output e \<Longrightarrow> video_output (emit e st) = video_output st"
  by (simp add: video_output_def emit_def)

lemma video_output_viewer: "video_output (st\<lparr>viewer := v\<rparr>) = video_output st"
  by (simp add: video_output_def)

lemma video_output_reset_to: "video_output (snd (reset_to L E st req)) = video_output st"
  by (simp add: video_output_def reset_to_trace is_video_output_def metadata_calls_def
      load_calls_def state_calls_def refresh_calls_def Let_def split: option.splits)

lemma video_output_check_playback:
  "video_output (final_state (check_playback E P states T i st)) = video_output st"
  by (simp add: check_playback_def final_state_def video_output_emit is_video_output_def Let_def
      split: option.splits)

lemma video_output_advance:
  "(case advance L E P states actions T i (success, st) of
      Inl (e, st') \<Rightarrow> video_output st' = video_output st
    | Inr (success', st') \<Rightarrow> video_output st' = video_output st)"
proof (cases actions)
  case None
  then show ?thesis
    by (simp add: advance_def video_output_reset_to)
next
  case (Some acts)
  let ?st2 = "emit Check_success (emit (Env_step (acts ! i)) st)"
  have 2: "video_output ?st2 = video_output st"
    by (simp add: video_output_emit is_video_output_def)
  show ?thesis
    using video_output_check_playback [where E = E and P = P and states = states and T = T and
          i = i and st = ?st2] 2 Some
    by (simp add: advance_def Let_def final_state_def split: sum.splits prod.splits)
qed

lemma video_output_on_screen: "video_output (on_screen P st) = video_output st"
  by (simp add: on_screen_def video_output_emit video_output_viewer is_video_output_def)

lemma video_render_off:
  "\<not> video_writer P \<Longrightarrow> video_render E P (video_count, st) = Inr (video_count, st)"
  by (simp add: video_render_def)

lemma video_output_replay_loop:
  assumes "\<not> video_writer P"
  shows "(case replay_loop L E P states actions T js (success, video_count, st) of
            Inl (e, st') \<Rightarrow> video_output st' = video_output st
          | Inr (success', video_count', st') \<Rightarrow> video_output st' = video_output st)"
proof (induction js arbitrary: success video_count st)
  case Nil
  show ?case by simp
next
  case (Cons i js)
  show ?case
  proof (cases "advance L E P states actions T i (success, st)")
    case (Inl x)
    then show ?thesis
      using video_output_advance [where L = L and E = E and P = P and states = states and
          actions = actions and T = T and i = i and success = success and st = st]
      by (simp split: prod.splits)
  next
    case (Inr y)
    obtain s1 st1 where y: "y = (s1, st1)" by (cases y)
    have 1: "video_output st1 = video_output st"
      using video_output_advance [where L = L and E = E and P = P and states = states and
          actions = actions and T = T and i = i and success = success and st = st] Inr y
      by simp
    show ?thesis
      using Cons.IH [where success = s1 and video_count = video_count and st = "on_screen P st1"]
        Inr y 1 assms
      by (simp add: video_render_off video_output_on_screen split: sum.splits prod.splits)
  qed
qed

lemma video_output_announce:
  "video_output (final_state (announce L P initial_state st)) = video_output st"
  by (simp add: announce_def final_state_def video_output_emit is_video_output_def Let_def
      split: option.splits)

lemma video_output_finish:
  "video_output (final_state (finish P action_playback success st)) = video_output st"
  by (simp add: finish_def final_state_def video_output_emit video_output_viewer
      is_video_output_def Let_def)

lemma video_output_with_env:
  assumes "\<not> video_writer P"
  shows "video_output (final_state (playback_trajectory_with_env L E initial_state states actions P st))
           = video_output st"
proof (cases "announce L P initial_state st")
  case (Inl x)
  then show ?thesis
    using assms video_output_announce [where L = L and P = P and initial_state = initial_state
        and st = st]
    by (simp add: playback_trajectory_with_env_def)
next
  case (Inr st1)
  let ?st2 = "snd (reset_to L E st1 initial_state)"
  let ?st3 = "if \<not> render P then emit (Print Running_episode) ?st2 else ?st2"
  have 1: "video_output st1 = video_output st"
    using video_output_announce [where L = L and P = P and initial_state = initial_state
        and st = st] Inr
    by (simp add: final_state_def)
  have 3: "video_output ?st3 = video_output st" "video_output ?st2 = video_output st"
    by (simp_all add: video_output_emit video_output_reset_to 1 is_video_output_def)
  show ?thesis
  proof (cases "case actions of Some acts \<Rightarrow> length states \<noteq> length acts | None \<Rightarrow> False")
    case True
    then show ?thesis
      using assms Inr 3 by (simp add: playback_trajectory_with_env_def final_state_def)
  next
    case False
    show ?thesis
    proof (cases "replay_loop L E P states actions (length states) [0..<length states]
                    (False, 0, ?st3)")
      case (Inl x)
      then show ?thesis
        using assms Inr False 3
          video_output_replay_loop [OF assms, where L = L and E = E and states = states and
            actions = actions and T = "length states" and js = "[0..<length states]" and
            success = False and video_count = 0 and st = ?st3]
        by (simp add: playback_trajectory_with_env_def final_state_def split: prod.splits)
    next
      case (Inr y)
      obtain success vc st4 where y: "y = (success, vc, st4)" by (cases y)
      have 4: "video_output st4 = video_output st"
        using Inr y 3
          video_output_replay_loop [OF assms, where L = L and E = E and states = states and
            actions = actions and T = "length states" and js = "[0..<length states]" and
            success = False and video_count = 0 and st = ?st3]
        by simp
      show ?thesis
        using assms \<open>announce L P initial_state st = Inr st1\<close> False Inr y 4
          video_output_finish [where P = P and action_playback = "actions \<noteq> None" and
            success = success and st = st4]
        by (simp add: playback_trajectory_with_env_def)
    qed
  qed
qed

lemma final_state_simps:
  "final_state (Inl (e, st)) = st" "final_state (Inr st) = st"
  by (simp_all add: final_state_def)

lemma video_output_episode:
  assumes "\<not> write_video" and "\<not> args_use_obs a"
  shows "video_output (final_state (playback_episode L E f a write_video names ep st))
           = video_output st"
proof -
  let ?st = "emit (Print (Playing_back_episode ep)) st"
  have 0: "video_output ?st = video_output st"
    by (simp add: video_output_emit is_video_output_def)
  have 1: "video_output (emit Model_get_xml ?st) = video_output st"
    by (simp add: video_output_emit is_video_output_def)
  have env: "\<And>init states actions s.
      video_output (final_state (playback_trajectory_with_env L E init states actions
        \<lparr>render = args_render a, video_writer = write_video,
         video_skip = args_video_skip a, camera_names = names,
         first = args_first a, verbose = args_verbose a\<rparr> s)) = video_output s"
    using assms(1) by (simp add: video_output_with_env)
  show ?thesis
    using assms(2) 0 1
    by (simp add: playback_episode_def Let_def split_def env final_state_simps
        split: option.splits)
qed

lemma video_output_episodes_loop:
  assumes "\<not> write_video" and "\<not> args_use_obs a"
  shows "video_output (final_state (episodes_loop L E f a write_video names eps st))
           = video_output st"
proof (induction eps arbitrary: st)
  case Nil
  show ?case by (simp add: final_state_simps)
next
  case (Cons ep eps)
  have ep: "video_output (final_state (playback_episode L E f a write_video names ep st))
              = video_output st"
    using assms by (rule video_output_episode)
  show ?case
  proof (cases "playback_episode L E f a write_video names ep st")
    case (Inl x)
    then show ?thesis using ep by simp
  next
    case (Inr st1)
    then show ?thesis using ep Cons.IH [of st1] by (simp add: final_state_simps)
  qed
qed

lemma output_mode_never_fails: "output_mode a = Inr (\<not> args_render a)"
  by (simp add: output_mode_def)

lemma playback_episode_video_path:
  "playback_episode L E f (a\<lparr>args_video_path := p\<rparr>) write_video names ep st =
   playback_episode L E f a write_video names ep st"
  by (simp add: playback_episode_def Let_def split_def
      cong: option.case_cong sum.case_cong if_cong)

lemma episodes_loop_video_path:
  "episodes_loop L E f (a\<lparr>args_video_path := p\<rparr>) write_video names eps st =
   episodes_loop L E f a write_video names eps st"
  by (induction eps arbitrary: st)
    (simp_all add: playback_episode_video_path cong: sum.case_cong)

lemma make_environment_video_path:
  "make_environment L f (a\<lparr>args_video_path := p\<rparr>) write_video st =
   make_environment L f a write_video st"
  by (simp add: make_environment_def cong: sum.case_cong option.case_cong if_cong)

lemma close_all_on_screen:
  "close_all (a\<lparr>args_video_path := p\<rparr>) False path st = close_all a False path' st"
  by (simp add: close_all_def)

lemma video_path_unused:
  assumes "args_render a"
  shows "playback_dataset L E f (a\<lparr>args_video_path := p\<rparr>) = playback_dataset L E f a"
  using assms
  by (simp add: playback_dataset_def output_mode_def render_image_names_of_def Let_def
      episodes_loop_video_path make_environment_video_path
      close_all_on_screen [where path' = "video_path_of a"]
      cong: sum.case_cong option.case_cong if_cong)

lemma video_output_make_environment:
  "video_output (final_state (make_environment L f a False st)) = video_output st"
  by (simp add: make_environment_def final_state_simps video_output_emit is_video_output_def
      split: sum.splits option.splits)

lemma video_output_close_all:
  "video_output (close_all a False path st) = video_output st"
  by (simp add: close_all_def Let_def video_output_emit is_video_output_def)

lemma video_output_dataset:
  assumes "args_render a"
  shows "video_output (final_state (playback_dataset L E f a)) = []"
proof -
  let ?st0 = "\<lparr>viewer = False, trace = []\<rparr>"
  have e: "video_output ?st0 = []"
    by (simp add: video_output_def)
  have mode: "output_mode a = Inr False"
    using assms by (simp add: output_mode_def)
  show ?thesis
  proof (cases "render_image_names_of L f a")
    case (Inl err)
    then show ?thesis
      using mode e by (simp add: playback_dataset_def Let_def final_state_simps)
  next
    case names: (Inr names)
    show ?thesis
    proof (cases "length names \<noteq> 1 \<or> args_use_obs a")
      case True
      then show ?thesis
        using mode e names assms by (auto simp: playback_dataset_def Let_def final_state_simps)
    next
      case False
      then have obs: "\<not> args_use_obs a" and one: "length names = 1" by simp_all
      show ?thesis
      proof (cases "make_environment L f a False ?st0")
        case (Inl x)
        then show ?thesis
          using mode e names obs one assms
            video_output_make_environment [where L = L and f = f and a = a and st = ?st0]
          by (simp add: playback_dataset_def Let_def)
      next
        case env: (Inr st1)
        let ?st2 = "case args_filter_key a of
                      Some k \<Rightarrow> emit (Print (Using_filter_key k)) st1
                    | None \<Rightarrow> st1"
        have 1: "video_output st1 = []"
          using env e
            video_output_make_environment [where L = L and f = f and a = a and st = ?st0]
          by (simp add: final_state_simps)
        have 2: "video_output ?st2 = []"
          using 1 by (simp add: video_output_emit is_video_output_def split: option.splits)
        show ?thesis
        proof (cases "replay_demos L f (args_filter_key a) (args_n a)")
          case (Inl err)
          then show ?thesis
            using mode names obs one assms env 2
            by (simp add: playback_dataset_def Let_def final_state_simps)
        next
          case demos: (Inr demos)
          have loop: "video_output (final_state (episodes_loop L E f a False names demos ?st2)) = []"
            using 2 obs by (simp add: video_output_episodes_loop)
          show ?thesis
          proof (cases "episodes_loop L E f a False names demos ?st2")
            case (Inl x)
            then show ?thesis
              using mode names obs one assms env demos loop
              by (simp add: playback_dataset_def Let_def)
          next
            case (Inr st4)
            then show ?thesis
              using mode names obs one assms env demos loop
              by (simp add: playback_dataset_def Let_def final_state_simps video_output_close_all)
          qed
        qed
      qed
    qed
  qed
qed

text \<open>
  C1, as the code has it. Whether a video is written is the negation of the render flag,
  so the check that not both outputs are chosen never fails. With the render flag set, a
  video path in the configuration changes nothing: the run is the run without it, and it
  opens no video writer, writes no frame and closes no writer.
\<close>
theorem on_screen_run_ignores_video_path:
  "output_mode a = Inr (\<not> args_render a) \<and>
   (args_render a \<longrightarrow>
      playback_dataset L E f (a\<lparr>args_video_path := p\<rparr>) = playback_dataset L E f a \<and>
      (\<forall>e\<in>set (trace (final_state (playback_dataset L E f a))). \<not> is_video_output e))"
proof (intro conjI impI)
  show "output_mode a = Inr (\<not> args_render a)"
    by (rule output_mode_never_fails)
next
  assume "args_render a"
  then show "playback_dataset L E f (a\<lparr>args_video_path := p\<rparr>) = playback_dataset L E f a"
    by (rule video_path_unused)
next
  assume "args_render a"
  then have "filter is_video_output (trace (final_state (playback_dataset L E f a))) = []"
    using video_output_dataset [where a = a and L = L and E = E and f = f]
    by (simp add: video_output_def)
  then show "\<forall>e\<in>set (trace (final_state (playback_dataset L E f a))). \<not> is_video_output e"
    by (simp add: filter_empty_conv)
qed

lemma sample_demos: "replay_demos sample_library (sample_file [''demo_0'']) None None = Inr [''demo_0'']"
  by (simp add: replay_demos_def list_demos_def stored_demos_def sample_file_def py_int_simps
      sample_library_def)

lemma sample_episode_on_screen: "playback_episode sample_library (sample_simulator False True False True)
     (sample_file [''demo_0''])
     (sample_args\<lparr>args_render := True, args_video_path := Some ''out.mp4''\<rparr>)
     False [''agentview''] ''demo_0''
     \<lparr>viewer = False, trace = [Robosuite_make ''TwoArmThreading'' False]\<rparr> =
   Inr \<lparr>viewer = False,
           trace =
             [Robosuite_make ''TwoArmThreading'' False, Print (Playing_back_episode ''demo_0''),
              Set_ep_meta [], Env_reset, Edit_model_xml ''<m/>'',
              Reset_from_xml_string ''<m/>'', Sim_reset,
              Sim_set_state_from_flattened [0], Sim_forward, Update_state,
              Sim_set_state_from_flattened [0], Sim_forward, Update_state,
              Initialize_renderer, Viewer_update,
              Sim_set_state_from_flattened [1], Sim_forward, Update_state,
              Viewer_update, Sim_set_state_from_flattened [5], Sim_forward,
              Update_state, Viewer_update, Viewer_close]\<rparr>"
  by (simp add: episode_defs run_defs upt_conv_Cons)

text \<open>
  A run with the render flag and a video path: it is not rejected, and replays the
  episode on screen.
\<close>
theorem on_screen_run_with_video_path: "playback_dataset sample_library (sample_simulator False True False True)
     (sample_file [''demo_0''])
     (sample_args\<lparr>args_render := True, args_video_path := Some ''out.mp4''\<rparr>) =
    Inr \<lparr>viewer = False,
           trace =
             [Robosuite_make ''TwoArmThreading'' False, Print (Playing_back_episode ''demo_0''),
              Set_ep_meta [], Env_reset, Edit_model_xml ''<m/>'',
              Reset_from_xml_string ''<m/>'', Sim_reset,
              Sim_set_state_from_flattened [0], Sim_forward, Update_state,
              Sim_set_state_from_flattened [0], Sim_forward, Update_state,
              Initialize_renderer, Viewer_update,
              Sim_set_state_from_flattened [1], Sim_forward, Update_state,
              Viewer_update, Sim_set_state_from_flattened [5], Sim_forward,
              Update_state, Viewer_update, Viewer_close, File_close,
              Env_close]\<rparr>"
proof -
  have env: "make_environment sample_library (sample_file [''demo_0''])
      (sample_args\<lparr>args_render := True, args_video_path := Some ''out.mp4''\<rparr>) False
      \<lparr>viewer = False, trace = []\<rparr> = Inr \<lparr>viewer = False, trace = [Robosuite_make ''TwoArmThreading'' False]\<rparr>"
    by (simp add: make_environment_def get_env_metadata_from_dataset_def sample_file_def
        sample_library_def sample_json_loads_def sample_ep_meta_def sample_env_args_def
        sample_args_def emit_def)
  have a: "args_render (sample_args\<lparr>args_render := True, args_video_path := Some ''out.mp4''\<rparr>)"
    "args_render_image_names (sample_args\<lparr>args_render := True, args_video_path := Some ''out.mp4''\<rparr>)
       = Some [''agentview'']"
    "\<not> args_use_obs (sample_args\<lparr>args_render := True, args_video_path := Some ''out.mp4''\<rparr>)"
    "args_filter_key (sample_args\<lparr>args_render := True, args_video_path := Some ''out.mp4''\<rparr>) = None"
    "args_n (sample_args\<lparr>args_render := True, args_video_path := Some ''out.mp4''\<rparr>) = None"
    by (simp_all add: sample_args_def)
  show ?thesis
    by (simp add: playback_dataset_def output_mode_def render_image_names_of_def a env sample_demos sample_episode_on_screen
        close_all_def emit_def Let_def)
qed

theorem on_screen_run_ignores_video_path_witness:
  "output_mode (sample_args\<lparr>args_render := True\<rparr>) = Inr False \<and>
   playback_dataset sample_library (sample_simulator False True False True)
     (sample_file [''demo_0''])
     (sample_args\<lparr>args_render := True, args_video_path := Some ''out.mp4''\<rparr>) =
   playback_dataset sample_library (sample_simulator False True False True)
     (sample_file [''demo_0'']) (sample_args\<lparr>args_render := True\<rparr>) \<and>
   filter is_video_output
     (trace (final_state (playback_dataset sample_library (sample_simulator False True False True)
        (sample_file [''demo_0'']) (sample_args\<lparr>args_render := True\<rparr>)))) = []"
proof -
  have r: "args_render (sample_args\<lparr>args_render := True\<rparr>)"
    by simp
  show ?thesis
    using on_screen_run_ignores_video_path
      [of "sample_args\<lparr>args_render := True\<rparr>" sample_library
          "sample_simulator False True False True" "sample_file [''demo_0'']" "Some ''out.mp4''"]
      r
    by (simp add: filter_empty_conv)
qed

end
